theory Spec2Isabelle
  imports Main "HOL-Library.Word"
begin

unbundle bit_operations_syntax

section \<open>The ES2 host driver (es2.c): data model\<close>

text \<open>
  Machine types of the driver on a 64-bit kernel: pointers, \<open>uintptr_t\<close> and
  \<open>size_t\<close> are 64-bit words, \<open>u8\<close>, \<open>u16\<close> and \<open>u32\<close> have their widths.
  A C \<open>int\<close> that only carries a status or an errno value is an \<open>int\<close>; the one
  \<open>int\<close> that receives a converted \<open>size_t\<close> (\<open>transfer_buffer_size\<close>) is a
  32-bit word, so that the conversion is the truncation the compiler performs.
  The null pointer is the word 0.
\<close>

type_synonym u8 = "8 word"
type_synonym u16 = "16 word"
type_synonym u32 = "32 word"
type_synonym uintptr = "64 word"
type_synonym size_t = "64 word"

text \<open>
  Error numbers. \<open>linux/errno.h\<close> is a kernel header and not part of the driver's
  sources; the values are those of the generic Linux ABI. Only the fact that they are
  pairwise different and positive is used.
\<close>

definition ENOENT :: int where "ENOENT = 2"
definition EAGAIN :: int where "EAGAIN = 11"
definition ENOMEM :: int where "ENOMEM = 12"
definition EINVAL :: int where "EINVAL = 22"
definition EPIPE :: int where "EPIPE = 32"
definition EPROTO :: int where "EPROTO = 71"
definition EOVERFLOW :: int where "EOVERFLOW = 75"
definition EILSEQ :: int where "EILSEQ = 84"
definition ECONNRESET :: int where "ECONNRESET = 104"
definition ESHUTDOWN :: int where "ESHUTDOWN = 108"

definition INT_MAX :: size_t where "INT_MAX = 0x7fffffff"
definition U8_MAX :: u16 where "U8_MAX = 0xff"

definition NUM_CPORT_IN_URB :: nat where "NUM_CPORT_IN_URB = 4"
definition NUM_CPORT_OUT_URB :: nat where "NUM_CPORT_OUT_URB = 8"

text \<open>
  A pipe as the \<open>usb_sndbulkpipe\<close> family of macros builds it: the kind and the
  endpoint address. A completion handler is one of the driver's three callbacks.
\<close>

datatype pipe = No_pipe | Rcvintpipe u8 | Rcvbulkpipe u8 | Sndbulkpipe u8

datatype completion = No_callback | Svc_in_callback | Cport_in_callback | Cport_out_callback

text \<open>The fields of \<open>struct urb\<close> that the driver reads or fills.\<close>

record urb =
  pipe :: pipe
  status :: int
  transfer_buffer :: uintptr
  transfer_buffer_length :: u32
  actual_length :: u32
  complete :: completion
  interval :: u8

text \<open>\<open>struct es1_ap_dev\<close>. The spinlock has no field: the model runs one call at a time.\<close>

record es1_ap_dev =
  control_endpoint :: u8
  svc_endpoint :: u8
  cport_in_endpoint :: u8
  cport_out_endpoint :: u8
  svc_buffer :: uintptr
  svc_urb :: uintptr
  cport_in_urb :: "uintptr list"
  cport_in_buffer :: "uintptr list"
  cport_out_urb :: "uintptr list"
  cport_out_urb_busy :: "bool list"

text \<open>
  Every call that leaves the driver (into the USB core, the allocator, the Greybus core
  or the log) is recorded, in order, with its arguments and with the value it returned.
  Log calls carry their format string.
\<close>

datatype event =
    Pr_err string
  | Dev_err string
  | Usb_alloc_urb uintptr
  | Usb_free_urb uintptr
  | Usb_kill_urb uintptr
  | Usb_submit_urb uintptr int
  | Kmalloc uintptr
  | Kfree uintptr
  | Greybus_data_rcvd u16 uintptr size_t
  | Greybus_svc_in uintptr u32
  | Greybus_data_sent uintptr int
  | Greybus_create_hd bool
  | Greybus_remove_hd
  | Usb_get_dev
  | Usb_put_dev
  | Usb_set_intfdata bool

text \<open>
  The state a call of the driver works on: the device structure, whether the interface
  data pointer is set, byte-addressed memory, the urb objects by address, the trace of
  outside calls, and the answers the outside world is going to give: the pointers the
  allocator (\<open>kmalloc\<close>, \<open>usb_alloc_urb\<close>) returns next and the values
  \<open>usb_submit_urb\<close> returns next.
\<close>

record kernel =
  es1 :: es1_ap_dev
  intfdata :: bool
  mem :: "uintptr \<Rightarrow> u8"
  urbs :: "uintptr \<Rightarrow> urb"
  trace :: "event list"
  alloc_results :: "uintptr list"
  submit_results :: "int list"

definition emit :: "event \<Rightarrow> kernel \<Rightarrow> kernel" where
  "emit e k = k\<lparr>trace := trace k @ [e]\<rparr>"

text \<open>
  The allocator: the next answer of the outside world, null when it has none left.
\<close>

definition next_alloc :: "kernel \<Rightarrow> uintptr \<times> kernel" where
  "next_alloc k =
     (case alloc_results k of
        [] \<Rightarrow> (0, k)
      | p # ps \<Rightarrow> (p, k\<lparr>alloc_results := ps\<rparr>))"

definition usb_alloc_urb :: "kernel \<Rightarrow> uintptr \<times> kernel" where
  "usb_alloc_urb k = (let (p, k1) = next_alloc k in (p, emit (Usb_alloc_urb p) k1))"

definition kmalloc :: "kernel \<Rightarrow> uintptr \<times> kernel" where
  "kmalloc k = (let (p, k1) = next_alloc k in (p, emit (Kmalloc p) k1))"

text \<open>
  \<open>usb_submit_urb\<close>: the next answer of the outside world; with none left the
  submission fails with \<open>-ENOMEM\<close>.
\<close>

definition usb_submit_urb :: "uintptr \<Rightarrow> kernel \<Rightarrow> int \<times> kernel" where
  "usb_submit_urb u k =
     (case submit_results k of
        [] \<Rightarrow> (- ENOMEM, emit (Usb_submit_urb u (- ENOMEM)) k)
      | r # rs \<Rightarrow> (r, emit (Usb_submit_urb u r) (k\<lparr>submit_results := rs\<rparr>)))"

definition usb_free_urb :: "uintptr \<Rightarrow> kernel \<Rightarrow> kernel" where
  "usb_free_urb u k = emit (Usb_free_urb u) k"

definition usb_kill_urb :: "uintptr \<Rightarrow> kernel \<Rightarrow> kernel" where
  "usb_kill_urb u k = emit (Usb_kill_urb u) k"

definition kfree :: "uintptr \<Rightarrow> kernel \<Rightarrow> kernel" where
  "kfree p k = emit (Kfree p) k"

text \<open>\<open>usb_fill_bulk_urb\<close> and \<open>usb_fill_int_urb\<close> assign fields of the urb.\<close>

definition usb_fill_bulk_urb ::
  "uintptr \<Rightarrow> pipe \<Rightarrow> uintptr \<Rightarrow> u32 \<Rightarrow> completion \<Rightarrow> kernel \<Rightarrow> kernel" where
  "usb_fill_bulk_urb u p buf len cb k =
     k\<lparr>urbs := (urbs k)(u := (urbs k u)\<lparr>pipe := p, transfer_buffer := buf,
          transfer_buffer_length := len, complete := cb\<rparr>)\<rparr>"

definition usb_fill_int_urb ::
  "uintptr \<Rightarrow> pipe \<Rightarrow> uintptr \<Rightarrow> u32 \<Rightarrow> completion \<Rightarrow> u8 \<Rightarrow> kernel \<Rightarrow> kernel" where
  "usb_fill_int_urb u p buf len cb iv k =
     k\<lparr>urbs := (urbs k)(u := (urbs k u)\<lparr>pipe := p, transfer_buffer := buf,
          transfer_buffer_length := len, complete := cb, interval := iv\<rparr>)\<rparr>"

section \<open>Cookies\<close>

definition conceal_urb :: "uintptr \<Rightarrow> uintptr" where
  "conceal_urb u = u XOR 0xbad"

definition reveal_urb :: "uintptr \<Rightarrow> uintptr" where
  "reveal_urb cookie = cookie XOR 0xbad"

section \<open>The pool of CPort OUT urbs\<close>

text \<open>
  The scan of \<open>next_free_urb\<close>, from index \<open>i\<close> on: the first slot that is not busy
  is marked busy and its urb is the result; a scan that finds none leaves \<open>urb\<close> null.
\<close>

function next_free_scan :: "es1_ap_dev \<Rightarrow> nat \<Rightarrow> uintptr \<times> es1_ap_dev" where
  "next_free_scan d i =
     (if i < NUM_CPORT_OUT_URB then
        (if cport_out_urb_busy d ! i = False then
           (cport_out_urb d ! i,
            d\<lparr>cport_out_urb_busy := (cport_out_urb_busy d)[i := True]\<rparr>)
         else next_free_scan d (Suc i))
      else (0, d))"
  by pat_completeness auto
termination
  by (relation "measure (\<lambda>(d, i). NUM_CPORT_OUT_URB - i)") auto

declare next_free_scan.simps [simp del]

definition next_free_urb :: "kernel \<Rightarrow> uintptr \<times> kernel" where
  "next_free_urb k =
     (let (u, d) = next_free_scan (es1 k) 0;
          k1 = k\<lparr>es1 := d\<rparr>
      in if u \<noteq> 0 then (u, k1)
         else usb_alloc_urb
                (emit (Dev_err ''No free CPort OUT urbs, having to dynamically allocate one!'') k1))"

text \<open>
  The scan of \<open>free_urb\<close>: the first slot that holds the urb is marked free and the
  local \<open>urb\<close> becomes null; the value of \<open>urb\<close> after the loop goes to
  \<open>usb_free_urb\<close>.
\<close>

function free_urb_scan :: "es1_ap_dev \<Rightarrow> uintptr \<Rightarrow> nat \<Rightarrow> uintptr \<times> es1_ap_dev" where
  "free_urb_scan d u i =
     (if i < NUM_CPORT_OUT_URB then
        (if u = cport_out_urb d ! i then
           (0, d\<lparr>cport_out_urb_busy := (cport_out_urb_busy d)[i := False]\<rparr>)
         else free_urb_scan d u (Suc i))
      else (u, d))"
  by pat_completeness auto
termination
  by (relation "measure (\<lambda>(d, u, i). NUM_CPORT_OUT_URB - i)") auto

declare free_urb_scan.simps [simp del]

definition free_urb :: "uintptr \<Rightarrow> kernel \<Rightarrow> kernel" where
  "free_urb u k =
     (let (u1, d) = free_urb_scan (es1 k) u 0
      in usb_free_urb u1 (k\<lparr>es1 := d\<rparr>))"

section \<open>Sending and cancelling\<close>

text \<open>
  \<open>buffer_send\<close>. The result is \<open>Inl e\<close> for \<open>ERR_PTR(e)\<close> and \<open>Inr c\<close> for the
  cookie \<open>c\<close>. \<open>CPORT_ID_BAD\<close> is a macro of \<open>greybus.h\<close>, which is not among the
  sources: it is the parameter \<open>cport_id_bad\<close>.
\<close>

definition buffer_send ::
  "u16 \<Rightarrow> u16 \<Rightarrow> uintptr \<Rightarrow> size_t \<Rightarrow> kernel \<Rightarrow> (int + uintptr) \<times> kernel" where
  "buffer_send cport_id_bad cport_id buffer buffer_size k =
     (if buffer = 0 then
        (Inl (- EINVAL), emit (Pr_err ''null buffer supplied to send'') k)
      else if buffer_size > INT_MAX then
        (Inl (- EINVAL), emit (Pr_err ''bad buffer size (%zu) supplied to send'') k)
      else
        let tb = buffer - 1;
            transfer_buffer_size = (ucast (buffer_size + 1) :: u32)
        in if cport_id = cport_id_bad then
             (Inl (- EINVAL), emit (Pr_err ''request to send inbound data buffer'') k)
           else if cport_id > U8_MAX then
             (Inl (- EINVAL), emit (Pr_err ''cport_id (%hd) is out of range for ES1'') k)
           else
             let k1 = k\<lparr>mem := (mem k)(tb := ucast cport_id)\<rparr>;
                 (u, k2) = next_free_urb k1
             in if u = 0 then (Inl (- ENOMEM), k2)
                else
                  let k3 = usb_fill_bulk_urb u (Sndbulkpipe (cport_out_endpoint (es1 k2)))
                             tb transfer_buffer_size Cport_out_callback k2;
                      (retval, k4) = usb_submit_urb u k3
                  in if retval \<noteq> 0 then
                       (Inl retval, free_urb u (emit (Pr_err ''error %d submitting URB'') k4))
                     else (Inr (conceal_urb u), k4))"

definition buffer_cancel :: "uintptr \<Rightarrow> kernel \<Rightarrow> kernel" where
  "buffer_cancel cookie k = (if cookie \<noteq> 0 then usb_kill_urb (reveal_urb cookie) k else k)"

section \<open>Completion handlers\<close>

text \<open>
  \<open>check_urb_status\<close>: the switch, case by case. \<open>-EOVERFLOW\<close> logs and falls
  through into the group that returns the status unchanged.
\<close>

definition check_urb_status :: "uintptr \<Rightarrow> kernel \<Rightarrow> int \<times> kernel" where
  "check_urb_status u k =
     (let st = status (urbs k u) in
      if st = 0 then (0, k)
      else if st = - EOVERFLOW then
        (st, emit (Dev_err ''%s: overflow actual length is %d'') k)
      else if st = - ECONNRESET \<or> st = - ENOENT \<or> st = - ESHUTDOWN
              \<or> st = - EILSEQ \<or> st = - EPROTO then (st, k)
      else (- EAGAIN, emit (Dev_err ''%s: unknown status %d'') k))"

text \<open>The label \<open>exit\<close> of the two receive handlers: resubmit, log a failure.\<close>

definition svc_in_exit :: "uintptr \<Rightarrow> kernel \<Rightarrow> kernel" where
  "svc_in_exit u k =
     (let (retval, k1) = usb_submit_urb u k
      in if retval \<noteq> 0 then emit (Dev_err ''Can not submit urb for AP data: %d'') k1 else k1)"

definition svc_in_callback :: "uintptr \<Rightarrow> kernel \<Rightarrow> kernel" where
  "svc_in_callback u k =
     (let (st, k1) = check_urb_status u k in
      if st \<noteq> 0 then
        (if st = - EAGAIN \<or> st = - EPROTO then svc_in_exit u k1
         else emit (Dev_err ''urb svc in error %d (dropped)'') k1)
      else
        svc_in_exit u
          (emit (Greybus_svc_in (transfer_buffer (urbs k1 u)) (actual_length (urbs k1 u))) k1))"

definition cport_in_exit :: "uintptr \<Rightarrow> kernel \<Rightarrow> kernel" where
  "cport_in_exit u k =
     (let (retval, k1) = usb_submit_urb u k
      in if retval \<noteq> 0 then emit (Dev_err ''%s: error %d in submitting urb.'') k1 else k1)"

definition cport_in_callback :: "uintptr \<Rightarrow> kernel \<Rightarrow> kernel" where
  "cport_in_callback u k =
     (let (st, k1) = check_urb_status u k in
      if st \<noteq> 0 then
        (if st = - EAGAIN \<or> st = - EPROTO then cport_in_exit u k1
         else emit (Dev_err ''urb cport in error %d (dropped)'') k1)
      else if actual_length (urbs k1 u) = 0 then
        cport_in_exit u (emit (Dev_err ''%s: no cport id in input buffer?'') k1)
      else
        let data = transfer_buffer (urbs k1 u);
            cport_id = (ucast (mem k1 data) :: u16)
        in cport_in_exit u
             (emit (Greybus_data_rcvd cport_id (data + 1)
                      (ucast (actual_length (urbs k1 u) - 1))) k1))"

definition cport_out_callback :: "uintptr \<Rightarrow> kernel \<Rightarrow> kernel" where
  "cport_out_callback u k =
     (let (st, k1) = check_urb_status u k;
          data = transfer_buffer (urbs k1 u) + 1
      in free_urb u (emit (Greybus_data_sent data st) k1))"

section \<open>Detach and attach\<close>

text \<open>
  The two teardown loops of \<open>ap_disconnect\<close>; each stops at the first null urb.
\<close>

function disconnect_out_loop :: "nat \<Rightarrow> kernel \<Rightarrow> kernel" where
  "disconnect_out_loop i k =
     (if i < NUM_CPORT_OUT_URB then
        (let u = cport_out_urb (es1 k) ! i in
         if u = 0 then k
         else
           let k1 = usb_free_urb u (usb_kill_urb u k);
               d = es1 k1
           in disconnect_out_loop (Suc i)
                (k1\<lparr>es1 := d\<lparr>cport_out_urb := (cport_out_urb d)[i := 0],
                              cport_out_urb_busy := (cport_out_urb_busy d)[i := False]\<rparr>\<rparr>))
      else k)"
  by pat_completeness auto
termination
  by (relation "measure (\<lambda>(i, k). NUM_CPORT_OUT_URB - i)") auto

declare disconnect_out_loop.simps [simp del]

function disconnect_in_loop :: "nat \<Rightarrow> kernel \<Rightarrow> kernel" where
  "disconnect_in_loop i k =
     (if i < NUM_CPORT_IN_URB then
        (let u = cport_in_urb (es1 k) ! i in
         if u = 0 then k
         else
           let k1 = kfree (cport_in_buffer (es1 k) ! i) (usb_free_urb u (usb_kill_urb u k));
               d = es1 k1
           in disconnect_in_loop (Suc i)
                (k1\<lparr>es1 := d\<lparr>cport_in_buffer := (cport_in_buffer d)[i := 0]\<rparr>\<rparr>))
      else k)"
  by pat_completeness auto
termination
  by (relation "measure (\<lambda>(i, k). NUM_CPORT_IN_URB - i)") auto

declare disconnect_in_loop.simps [simp del]

definition ap_disconnect :: "kernel \<Rightarrow> kernel" where
  "ap_disconnect k =
     (if \<not> intfdata k then k
      else
        let k1 = disconnect_out_loop 0 k;
            k2 = disconnect_in_loop 0 k1;
            k3 = usb_free_urb (svc_urb (es1 k2)) (usb_kill_urb (svc_urb (es1 k2)) k2);
            k4 = k3\<lparr>es1 := (es1 k3)\<lparr>svc_urb := 0\<rparr>\<rparr>;
            k5 = kfree (svc_buffer (es1 k4)) k4;
            k6 = k5\<lparr>es1 := (es1 k5)\<lparr>svc_buffer := 0\<rparr>\<rparr>;
            k7 = emit (Usb_set_intfdata False) (k6\<lparr>intfdata := False\<rparr>)
        in emit Usb_put_dev (emit Greybus_remove_hd k7))"

text \<open>
  An endpoint descriptor, and the tests of \<open>linux/usb/ch9.h\<close> on it: the transfer type
  is the low two bits of \<open>bmAttributes\<close> (2 bulk, 3 interrupt), the direction is bit 7
  of \<open>bEndpointAddress\<close>.
\<close>

record usb_endpoint_descriptor =
  bEndpointAddress :: u8
  bmAttributes :: u8
  bInterval :: u8

definition usb_endpoint_is_int_in :: "usb_endpoint_descriptor \<Rightarrow> bool" where
  "usb_endpoint_is_int_in e \<longleftrightarrow> bmAttributes e AND 3 = 3 \<and> bEndpointAddress e AND 0x80 = 0x80"

definition usb_endpoint_is_bulk_in :: "usb_endpoint_descriptor \<Rightarrow> bool" where
  "usb_endpoint_is_bulk_in e \<longleftrightarrow> bmAttributes e AND 3 = 2 \<and> bEndpointAddress e AND 0x80 = 0x80"

definition usb_endpoint_is_bulk_out :: "usb_endpoint_descriptor \<Rightarrow> bool" where
  "usb_endpoint_is_bulk_out e \<longleftrightarrow> bmAttributes e AND 3 = 2 \<and> bEndpointAddress e AND 0x80 = 0"

text \<open>The locals of \<open>ap_probe\<close> that the endpoint loop assigns.\<close>

record probe_locals =
  int_in_found :: bool
  bulk_in_found :: bool
  bulk_out_found :: bool
  svc_interval :: u8

fun find_endpoints ::
  "usb_endpoint_descriptor list \<Rightarrow> probe_locals \<times> kernel \<Rightarrow> probe_locals \<times> kernel" where
  "find_endpoints [] s = s"
| "find_endpoints (e # es) (l, k) =
     find_endpoints es
       (if usb_endpoint_is_int_in e then
          (l\<lparr>int_in_found := True, svc_interval := bInterval e\<rparr>,
           k\<lparr>es1 := (es1 k)\<lparr>svc_endpoint := bEndpointAddress e\<rparr>\<rparr>)
        else if usb_endpoint_is_bulk_in e then
          (l\<lparr>bulk_in_found := True\<rparr>,
           k\<lparr>es1 := (es1 k)\<lparr>cport_in_endpoint := bEndpointAddress e\<rparr>\<rparr>)
        else if usb_endpoint_is_bulk_out e then
          (l\<lparr>bulk_out_found := True\<rparr>,
           k\<lparr>es1 := (es1 k)\<lparr>cport_out_endpoint := bEndpointAddress e\<rparr>\<rparr>)
        else (l, emit (Dev_err ''Unknown endpoint type found, address %x'') k))"

text \<open>
  The two allocation loops of \<open>ap_probe\<close>. The result says whether the loop left
  through \<open>goto error\<close>, and carries \<open>retval\<close> as the loop left it.
\<close>

function probe_in_loop :: "u32 \<Rightarrow> nat \<Rightarrow> int \<Rightarrow> kernel \<Rightarrow> bool \<times> int \<times> kernel" where
  "probe_in_loop page_size i retval k =
     (if i < NUM_CPORT_IN_URB then
        (let (u, k1) = usb_alloc_urb k in
         if u = 0 then (True, retval, k1)
         else
           let (buffer, k2) = kmalloc k1 in
           if buffer = 0 then (True, retval, k2)
           else
             let k3 = usb_fill_bulk_urb u (Rcvbulkpipe (cport_in_endpoint (es1 k2)))
                        buffer page_size Cport_in_callback k2;
                 d = es1 k3;
                 k4 = k3\<lparr>es1 := d\<lparr>cport_in_urb := (cport_in_urb d)[i := u],
                                  cport_in_buffer := (cport_in_buffer d)[i := buffer]\<rparr>\<rparr>;
                 (r, k5) = usb_submit_urb u k4
             in if r \<noteq> 0 then (True, r, k5)
                else probe_in_loop page_size (Suc i) r k5)
      else (False, retval, k))"
  by pat_completeness auto
termination
  by (relation "measure (\<lambda>(p, i, r, k). NUM_CPORT_IN_URB - i)") auto

declare probe_in_loop.simps [simp del]

function probe_out_loop :: "nat \<Rightarrow> kernel \<Rightarrow> bool \<times> kernel" where
  "probe_out_loop i k =
     (if i < NUM_CPORT_OUT_URB then
        (let (u, k1) = usb_alloc_urb k in
         if u = 0 then (True, k1)
         else
           let d = es1 k1
           in probe_out_loop (Suc i)
                (k1\<lparr>es1 := d\<lparr>cport_out_urb := (cport_out_urb d)[i := u],
                              cport_out_urb_busy := (cport_out_urb_busy d)[i := False]\<rparr>\<rparr>))
      else (False, k))"
  by pat_completeness auto
termination
  by (relation "measure (\<lambda>(i, k). NUM_CPORT_OUT_URB - i)") auto

declare probe_out_loop.simps [simp del]

text \<open>
  \<open>ap_probe\<close>. Its inputs from outside the driver are parameters: whether
  \<open>greybus_create_hd\<close> returns a host device (\<open>hd_ok\<close>), the address of endpoint 0,
  the sizes \<open>ES1_SVC_MSG_SIZE\<close> and \<open>PAGE_SIZE\<close> (both rest on headers that are not
  among the sources) and the endpoint descriptors of the interface's current setting.
  On entry \<open>es1 k\<close> is the private area of the host device as \<open>greybus_create_hd\<close>
  hands it over. The result is the return value and the state; every \<open>goto error\<close>
  runs \<open>ap_disconnect\<close> and returns \<open>retval\<close> as it is then. The calls of
  \<open>hd_buffer_constraints\<close> and \<open>spin_lock_init\<close> write fields of the host device
  and the lock, for which the state has no component.
\<close>

definition ap_probe ::
  "bool \<Rightarrow> u8 \<Rightarrow> u32 \<Rightarrow> u32 \<Rightarrow> usb_endpoint_descriptor list \<Rightarrow> kernel \<Rightarrow> int \<times> kernel" where
  "ap_probe hd_ok ep0_address svc_msg_size page_size eps k =
     (let k0 = emit (Greybus_create_hd hd_ok) (emit Usb_get_dev k) in
      if \<not> hd_ok then (- ENOMEM, emit Usb_put_dev k0)
      else
        let k1 = emit (Usb_set_intfdata True) (k0\<lparr>intfdata := True\<rparr>);
            k2 = k1\<lparr>es1 := (es1 k1)\<lparr>control_endpoint := ep0_address\<rparr>\<rparr>;
            (l, k3) = find_endpoints eps
                        (\<lparr>int_in_found = False, bulk_in_found = False,
                          bulk_out_found = False, svc_interval = 0\<rparr>, k2)
        in if int_in_found l = False \<or> bulk_in_found l = False \<or> bulk_out_found l = False then
             (- ENOMEM,
              ap_disconnect
                (emit (Dev_err ''Not enough endpoints found in device, aborting!'') k3))
           else
             let (buf, k4) = kmalloc k3;
                 k5 = k4\<lparr>es1 := (es1 k4)\<lparr>svc_buffer := buf\<rparr>\<rparr>
             in if buf = 0 then (- ENOMEM, ap_disconnect k5)
                else
                  let (u, k6) = usb_alloc_urb k5;
                      k7 = k6\<lparr>es1 := (es1 k6)\<lparr>svc_urb := u\<rparr>\<rparr>
                  in if u = 0 then (- ENOMEM, ap_disconnect k7)
                     else
                       let k8 = usb_fill_int_urb u (Rcvintpipe (svc_endpoint (es1 k7))) buf
                                  svc_msg_size Svc_in_callback (svc_interval l) k7;
                           (retval, k9) = usb_submit_urb u k8
                       in if retval \<noteq> 0 then (retval, ap_disconnect k9)
                          else
                            let (err, retval1, k10) = probe_in_loop page_size 0 retval k9
                            in if err then (retval1, ap_disconnect k10)
                               else
                                 let (err2, k11) = probe_out_loop 0 k10
                                 in if err2 then (retval1, ap_disconnect k11)
                                    else (0, k11))"

section \<open>Observations on a call\<close>

text \<open>The outside calls a step made: the part of the trace it appended.\<close>

definition new_events :: "kernel \<Rightarrow> kernel \<Rightarrow> event list" where
  "new_events k k' = drop (length (trace k)) (trace k')"

fun is_submit :: "event \<Rightarrow> bool" where
  "is_submit (Usb_submit_urb u r) = True"
| "is_submit _ = False"

fun is_alloc_urb :: "event \<Rightarrow> bool" where
  "is_alloc_urb (Usb_alloc_urb p) = True"
| "is_alloc_urb _ = False"

fun is_data_rcvd :: "event \<Rightarrow> bool" where
  "is_data_rcvd (Greybus_data_rcvd c p n) = True"
| "is_data_rcvd _ = False"

fun is_data_sent :: "event \<Rightarrow> bool" where
  "is_data_sent (Greybus_data_sent p st) = True"
| "is_data_sent _ = False"

text \<open>The value \<open>usb_submit_urb\<close> returns when it is called next.\<close>

definition next_submit :: "kernel \<Rightarrow> int" where
  "next_submit k = (case submit_results k of [] \<Rightarrow> - ENOMEM | r # rs \<Rightarrow> r)"

text \<open>The \<open>n\<close> bytes of memory from address \<open>p\<close> on.\<close>

definition read_bytes :: "(uintptr \<Rightarrow> u8) \<Rightarrow> uintptr \<Rightarrow> nat \<Rightarrow> u8 list" where
  "read_bytes m p n = map (\<lambda>i. m (p + of_nat i)) [0..<n]"

text \<open>The bytes a submitted urb puts on the wire: its transfer buffer, at its length.\<close>

definition wire_bytes :: "kernel \<Rightarrow> uintptr \<Rightarrow> u8 list" where
  "wire_bytes k u =
     read_bytes (mem k) (transfer_buffer (urbs k u)) (unat (transfer_buffer_length (urbs k u)))"

text \<open>
  The group of case labels of \<open>check_urb_status\<close> that ends in
  ``device is gone, stop sending'' and returns the status unchanged.
\<close>

definition device_gone :: "int \<Rightarrow> bool" where
  "device_gone st \<longleftrightarrow>
     st = - EOVERFLOW \<or> st = - ECONNRESET \<or> st = - ENOENT \<or> st = - ESHUTDOWN
     \<or> st = - EILSEQ \<or> st = - EPROTO"

text \<open>An endpoint that is none of the three kinds \<open>ap_probe\<close> looks for.\<close>

definition unknown_endpoint :: "usb_endpoint_descriptor \<Rightarrow> bool" where
  "unknown_endpoint e \<longleftrightarrow>
     \<not> usb_endpoint_is_int_in e \<and> \<not> usb_endpoint_is_bulk_in e \<and> \<not> usb_endpoint_is_bulk_out e"

text \<open>
  What a trace leaves allocated: a device reference per \<open>usb_get_dev\<close>, a host device
  per successful \<open>greybus_create_hd\<close>, a buffer or urb per non-null allocation, each
  until the call that gives it back.
\<close>

fun release_of :: "event \<Rightarrow> event option" where
  "release_of Usb_put_dev = Some Usb_get_dev"
| "release_of Greybus_remove_hd = Some (Greybus_create_hd True)"
| "release_of (Kfree p) = Some (Kmalloc p)"
| "release_of (Usb_free_urb p) = Some (Usb_alloc_urb p)"
| "release_of _ = None"

fun acquires :: "event \<Rightarrow> bool" where
  "acquires Usb_get_dev = True"
| "acquires (Greybus_create_hd ok) = ok"
| "acquires (Kmalloc p) = (p \<noteq> 0)"
| "acquires (Usb_alloc_urb p) = (p \<noteq> 0)"
| "acquires _ = False"

fun outstanding :: "event list \<Rightarrow> event list \<Rightarrow> event list" where
  "outstanding held [] = held"
| "outstanding held (e # es) =
     outstanding
       (if acquires e then e # held
        else case release_of e of None \<Rightarrow> held | Some a \<Rightarrow> remove1 a held)
       es"

section \<open>Well-formed states\<close>

text \<open>
  What a successful attach leaves and every later call keeps: the two pool arrays have
  their eight entries, and the pool urbs are eight different non-null pointers.
\<close>

definition pool_ok :: "es1_ap_dev \<Rightarrow> bool" where
  "pool_ok d \<longleftrightarrow>
     length (cport_out_urb d) = NUM_CPORT_OUT_URB \<and>
     length (cport_out_urb_busy d) = NUM_CPORT_OUT_URB \<and>
     distinct (cport_out_urb d) \<and>
     0 \<notin> set (cport_out_urb d)"

text \<open>
  What the allocator guarantees: an object it returns is aligned to a machine word, and
  it is not an object that is still allocated (here: a pool urb).
\<close>

definition aligned_ptr :: "uintptr \<Rightarrow> bool" where
  "aligned_ptr p \<longleftrightarrow> p AND 7 = 0"

definition kernel_ok :: "kernel \<Rightarrow> bool" where
  "kernel_ok k \<longleftrightarrow>
     pool_ok (es1 k) \<and>
     list_all aligned_ptr (cport_out_urb (es1 k)) \<and>
     list_all aligned_ptr (alloc_results k) \<and>
     list_all (\<lambda>p. p \<notin> set (cport_out_urb (es1 k))) (alloc_results k)"

definition some_slot_free :: "es1_ap_dev \<Rightarrow> bool" where
  "some_slot_free d \<longleftrightarrow> list_ex (\<lambda>i. \<not> cport_out_urb_busy d ! i) [0..<NUM_CPORT_OUT_URB]"

text \<open>The slot the scan of \<open>next_free_urb\<close> takes, and the slot \<open>free_urb\<close> finds.\<close>

definition first_free :: "es1_ap_dev \<Rightarrow> nat option" where
  "first_free d = find (\<lambda>j. \<not> cport_out_urb_busy d ! j) [0..<NUM_CPORT_OUT_URB]"

definition slot_of :: "es1_ap_dev \<Rightarrow> uintptr \<Rightarrow> nat option" where
  "slot_of d u = find (\<lambda>j. u = cport_out_urb d ! j) [0..<NUM_CPORT_OUT_URB]"

definition pool_idle :: "es1_ap_dev \<Rightarrow> bool" where
  "pool_idle d \<longleftrightarrow> cport_out_urb_busy d = replicate NUM_CPORT_OUT_URB False"

text \<open>
  The private area of a fresh host device with every field zero. \<open>greybus_create_hd\<close>
  is not among the sources; the teardown of \<open>ap_probe\<close> relies on null pointers in
  the slots it has not filled yet, and theorems about that teardown assume this state.
\<close>

definition es1_zeroed :: es1_ap_dev where
  "es1_zeroed =
     \<lparr>control_endpoint = 0, svc_endpoint = 0, cport_in_endpoint = 0, cport_out_endpoint = 0,
      svc_buffer = 0, svc_urb = 0,
      cport_in_urb = [0, 0, 0, 0], cport_in_buffer = [0, 0, 0, 0],
      cport_out_urb = [0, 0, 0, 0, 0, 0, 0, 0],
      cport_out_urb_busy = [False, False, False, False, False, False, False, False]\<rparr>"

section \<open>Sequences of calls\<close>

text \<open>
  Sends and their completions. A state of a run is the kernel state and the urbs in
  flight: those a send submitted with success and whose completion handler has not run.
  The USB core completes only an urb that is in flight; it stores the status and calls
  \<open>cport_out_callback\<close>.
\<close>

datatype op = Send u16 uintptr size_t | Complete uintptr int

fun step :: "u16 \<Rightarrow> op \<Rightarrow> kernel \<times> uintptr list \<Rightarrow> kernel \<times> uintptr list" where
  "step bad (Send c b n) (k, fl) =
     (case buffer_send bad c b n k of
        (Inl e, k') \<Rightarrow> (k', fl)
      | (Inr cookie, k') \<Rightarrow> (k', reveal_urb cookie # fl))"
| "step bad (Complete u st) (k, fl) =
     (if u \<in> set fl then
        (cport_out_callback u (k\<lparr>urbs := (urbs k)(u := (urbs k u)\<lparr>status := st\<rparr>)\<rparr>),
         remove1 u fl)
      else (k, fl))"

fun run :: "u16 \<Rightarrow> op list \<Rightarrow> kernel \<times> uintptr list \<Rightarrow> kernel \<times> uintptr list" where
  "run bad [] s = s"
| "run bad (x # xs) s = run bad xs (step bad x s)"

text \<open>
  The sends of a run stay within the pool's capacity: whenever a send is issued, it and
  the sends in flight are at most \<open>NUM_CPORT_OUT_URB\<close> together.
\<close>

fun within_capacity :: "u16 \<Rightarrow> op list \<Rightarrow> kernel \<times> uintptr list \<Rightarrow> bool" where
  "within_capacity bad [] s = True"
| "within_capacity bad (Send c b n # xs) s =
     (Suc (length (snd s)) \<le> NUM_CPORT_OUT_URB \<and>
      within_capacity bad xs (step bad (Send c b n) s))"
| "within_capacity bad (Complete u st # xs) s =
     within_capacity bad xs (step bad (Complete u st) s)"

text \<open>
  Acquire and release on the pool alone. A state is the kernel state and the urbs that
  were handed out by \<open>next_free_urb\<close> and not given back through \<open>free_urb\<close> since.
\<close>

datatype pool_op = Acquire | Release uintptr

fun pool_step :: "pool_op \<Rightarrow> kernel \<times> uintptr list \<Rightarrow> kernel \<times> uintptr list" where
  "pool_step Acquire (k, owned) =
     (case next_free_urb k of (u, k') \<Rightarrow> (k', if u \<noteq> 0 then u # owned else owned))"
| "pool_step (Release u) (k, owned) = (free_urb u k, remove1 u owned)"

fun pool_run :: "pool_op list \<Rightarrow> kernel \<times> uintptr list \<Rightarrow> kernel \<times> uintptr list" where
  "pool_run [] s = s"
| "pool_run (x # xs) s = pool_run xs (pool_step x s)"

text \<open>
  Mutual exclusion on the pool: no pool urb is held twice among the urbs handed out.
\<close>

definition exclusive :: "kernel \<times> uintptr list \<Rightarrow> bool" where
  "exclusive s \<longleftrightarrow>
     list_all (\<lambda>p. count_list (snd s) p \<le> 1) (cport_out_urb (es1 (fst s)))"

text \<open>
  The bookkeeping that goes with it: the state is well formed, and the slot of every pool
  urb that is handed out is marked busy.
\<close>

definition owner_inv :: "kernel \<times> uintptr list \<Rightarrow> bool" where
  "owner_inv s \<longleftrightarrow>
     kernel_ok (fst s) \<and> exclusive s \<and>
     (\<forall>j<NUM_CPORT_OUT_URB.
        cport_out_urb (es1 (fst s)) ! j \<in> set (snd s) \<longrightarrow>
        cport_out_urb_busy (es1 (fst s)) ! j)"

text \<open>
  The bookkeeping of a run of sends while no send had to allocate: the urbs in flight
  are different pool urbs, and a slot is busy exactly if its urb is in flight.
\<close>

definition flight_inv :: "kernel \<times> uintptr list \<Rightarrow> bool" where
  "flight_inv s \<longleftrightarrow>
     kernel_ok (fst s) \<and> distinct (snd s) \<and>
     set (snd s) \<subseteq> set (cport_out_urb (es1 (fst s))) \<and>
     (\<forall>j<NUM_CPORT_OUT_URB.
        cport_out_urb_busy (es1 (fst s)) ! j \<longleftrightarrow>
        cport_out_urb (es1 (fst s)) ! j \<in> set (snd s))"

section \<open>A concrete device\<close>

definition urb0 :: urb where
  "urb0 = \<lparr>pipe = No_pipe, status = 0, transfer_buffer = 0, transfer_buffer_length = 0,
           actual_length = 0, complete = No_callback, interval = 0\<rparr>"

definition demo_dev :: es1_ap_dev where
  "demo_dev =
     \<lparr>control_endpoint = 0, svc_endpoint = 0x81, cport_in_endpoint = 0x82,
      cport_out_endpoint = 0x03, svc_buffer = 0x1000, svc_urb = 0x2000,
      cport_in_urb = [0x3000, 0x3100, 0x3200, 0x3300],
      cport_in_buffer = [0x10000, 0x11000, 0x12000, 0x13000],
      cport_out_urb = [0x4000, 0x4100, 0x4200, 0x4300, 0x4400, 0x4500, 0x4600, 0x4700],
      cport_out_urb_busy = [False, False, False, False, False, False, False, False]\<rparr>"

definition demo_kernel :: kernel where
  "demo_kernel =
     \<lparr>es1 = demo_dev, intfdata = True, mem = (\<lambda>a. 0), urbs = (\<lambda>a. urb0), trace = [],
      alloc_results = [0x5000], submit_results = [0, 0]\<rparr>"

text \<open>The receive urb at \<open>0x3000\<close> completed with the given status, length and bytes.\<close>

definition demo_completed :: "int \<Rightarrow> u8 list \<Rightarrow> kernel" where
  "demo_completed st bytes =
     demo_kernel
       \<lparr>mem := (\<lambda>a. if unat (a - 0x10000) < length bytes then bytes ! unat (a - 0x10000) else 0),
        urbs := (\<lambda>a. urb0)(0x3000 := urb0\<lparr>status := st, transfer_buffer := 0x10000,
                   transfer_buffer_length := 4096, actual_length := of_nat (length bytes),
                   complete := Cport_in_callback\<rparr>)\<rparr>"

text \<open>A two-byte payload at \<open>0x20000\<close>, ready to be sent.\<close>

definition demo_send :: kernel where
  "demo_send =
     demo_kernel\<lparr>mem := (\<lambda>a. if a = 0x20000 then 0xAA else if a = 0x20001 then 0xBB else 0)\<rparr>"

text \<open>Every slot busy, and an allocator that has nothing left to give.\<close>

definition demo_full :: kernel where
  "demo_full =
     demo_kernel
       \<lparr>es1 := demo_dev\<lparr>cport_out_urb_busy :=
                 [True, True, True, True, True, True, True, True]\<rparr>,
        alloc_results := []\<rparr>"

text \<open>
  The state before an attach, with an allocator and a USB core that let it succeed, and
  an interface with an interrupt-in endpoint, two bulk-in endpoints and a bulk-out
  endpoint.
\<close>

definition demo_boot :: kernel where
  "demo_boot =
     \<lparr>es1 = es1_zeroed, intfdata = False, mem = (\<lambda>a. 0), urbs = (\<lambda>a. urb0), trace = [],
      alloc_results =
        [0x1000, 0x2000, 0x3000, 0x10000, 0x3100, 0x11000, 0x3200, 0x12000, 0x3300, 0x13000,
         0x4000, 0x4100, 0x4200, 0x4300, 0x4400, 0x4500, 0x4600, 0x4700],
      submit_results = [0, 0, 0, 0, 0]\<rparr>"

definition demo_endpoints :: "usb_endpoint_descriptor list" where
  "demo_endpoints =
     [\<lparr>bEndpointAddress = 0x81, bmAttributes = 3, bInterval = 4\<rparr>,
      \<lparr>bEndpointAddress = 0x82, bmAttributes = 2, bInterval = 0\<rparr>,
      \<lparr>bEndpointAddress = 0x84, bmAttributes = 2, bInterval = 0\<rparr>,
      \<lparr>bEndpointAddress = 0x03, bmAttributes = 2, bInterval = 0\<rparr>]"

section \<open>Basic facts\<close>

lemmas errno_defs =
  ENOENT_def EAGAIN_def ENOMEM_def EINVAL_def EPIPE_def EPROTO_def EOVERFLOW_def
  EILSEQ_def ECONNRESET_def ESHUTDOWN_def

lemma reveal_conceal: "reveal_urb (conceal_urb u) = u"
  by (simp add: reveal_urb_def conceal_urb_def xor.assoc)

lemma emit_simps [simp]:
  "trace (emit e k) = trace k @ [e]"
  "es1 (emit e k) = es1 k"
  "mem (emit e k) = mem k"
  "urbs (emit e k) = urbs k"
  "alloc_results (emit e k) = alloc_results k"
  "submit_results (emit e k) = submit_results k"
  "intfdata (emit e k) = intfdata k"
  by (simp_all add: emit_def)

lemma new_events_append: "trace k' = trace k @ evs \<Longrightarrow> new_events k k' = evs"
  by (simp add: new_events_def)

lemma new_events_self [simp]: "new_events k k = []"
  by (simp add: new_events_def)

lemma new_events_emit [simp]: "new_events k (emit e k) = [e]"
  by (simp add: new_events_def)

lemma buffer_send_rejected:
  assumes "buffer = 0 \<or> buffer_size > INT_MAX \<or> cport_id = cport_id_bad \<or> cport_id > U8_MAX"
  shows "\<exists>msg. buffer_send cport_id_bad cport_id buffer buffer_size k
           = (Inl (- EINVAL), emit (Pr_err msg) k)"
  using assms by (auto simp: buffer_send_def Let_def)

section \<open>Argument validation\<close>

text \<open>
  Claim C6. \<open>buffer_send\<close> returns \<open>ERR_PTR(-EINVAL)\<close> whenever the buffer pointer is
  null, the size exceeds \<open>INT_MAX\<close>, the channel id is \<open>CPORT_ID_BAD\<close> or the channel
  id exceeds 255. The state after such a call is the state before it with one
  \<open>pr_err\<close> line added to the trace: no urb was acquired, nothing was allocated or
  submitted, memory was not written and the busy flags of the pool are as they were.
\<close>

theorem buffer_send_rejects_bad_arguments:
  assumes "buffer = 0 \<or> buffer_size > INT_MAX \<or> cport_id = cport_id_bad \<or> cport_id > U8_MAX"
  shows "(\<exists>msg. buffer_send cport_id_bad cport_id buffer buffer_size k
            = (Inl (- EINVAL), emit (Pr_err msg) k))
       \<and> cport_out_urb_busy (es1 (snd (buffer_send cport_id_bad cport_id buffer buffer_size k)))
            = cport_out_urb_busy (es1 k)
       \<and> filter is_submit
            (new_events k (snd (buffer_send cport_id_bad cport_id buffer buffer_size k))) = []
       \<and> filter is_alloc_urb
            (new_events k (snd (buffer_send cport_id_bad cport_id buffer buffer_size k))) = []"
proof -
  obtain msg where "buffer_send cport_id_bad cport_id buffer buffer_size k
           = (Inl (- EINVAL), emit (Pr_err msg) k)"
    using buffer_send_rejected [OF assms] by blast
  then show ?thesis by auto
qed

theorem buffer_send_rejects_bad_arguments_witness:
  "(0x100 :: u16) > U8_MAX \<and> (0x80000000 :: size_t) > INT_MAX
   \<and> buffer_send 0xffff 5 0 10 demo_kernel
       = (Inl (- EINVAL), emit (Pr_err ''null buffer supplied to send'') demo_kernel)
   \<and> buffer_send 0xffff 5 0x20000 0x80000000 demo_kernel
       = (Inl (- EINVAL), emit (Pr_err ''bad buffer size (%zu) supplied to send'') demo_kernel)
   \<and> buffer_send 0xffff 0xffff 0x20000 10 demo_kernel
       = (Inl (- EINVAL), emit (Pr_err ''request to send inbound data buffer'') demo_kernel)
   \<and> buffer_send 0xffff 0x100 0x20000 10 demo_kernel
       = (Inl (- EINVAL), emit (Pr_err ''cport_id (%hd) is out of range for ES1'') demo_kernel)
   \<and> cport_out_urb_busy (es1 (snd (buffer_send 0xffff 0x100 0x20000 10 demo_kernel)))
       = [False, False, False, False, False, False, False, False]"
proof -
  have h: "(0x100 :: u16) > U8_MAX" "(0x80000000 :: size_t) > INT_MAX"
    by (simp_all add: U8_MAX_def INT_MAX_def)
  have busy: "cport_out_urb_busy (es1 demo_kernel)
                = [False, False, False, False, False, False, False, False]"
    by (simp add: demo_kernel_def demo_dev_def)
  show ?thesis
    using buffer_send_rejects_bad_arguments [of 0 10 5 "0xffff" demo_kernel]
      buffer_send_rejects_bad_arguments [of "0x20000" "0x80000000" 5 "0xffff" demo_kernel]
      buffer_send_rejects_bad_arguments [of "0x20000" 10 "0xffff" "0xffff" demo_kernel]
      buffer_send_rejects_bad_arguments [of "0x20000" 10 "0x100" "0xffff" demo_kernel]
      h busy
    by (simp add: buffer_send_def INT_MAX_def U8_MAX_def Let_def)
qed

lemma usb_submit_urb_eq:
  "usb_submit_urb u k =
     (next_submit k,
      emit (Usb_submit_urb u (next_submit k)) (k\<lparr>submit_results := tl (submit_results k)\<rparr>))"
  by (cases "submit_results k") (simp_all add: usb_submit_urb_def next_submit_def)

lemma cport_in_exit_trace:
  "trace (cport_in_exit u k) =
     trace k @ Usb_submit_urb u (next_submit k)
       # (if next_submit k = 0 then [] else [Dev_err ''%s: error %d in submitting urb.''])"
  by (simp add: cport_in_exit_def usb_submit_urb_eq)

lemma svc_in_exit_trace:
  "trace (svc_in_exit u k) =
     trace k @ Usb_submit_urb u (next_submit k)
       # (if next_submit k = 0 then [] else [Dev_err ''Can not submit urb for AP data: %d''])"
  by (simp add: svc_in_exit_def usb_submit_urb_eq)

lemma next_submit_emit [simp]: "next_submit (emit e k) = next_submit k"
  by (simp add: next_submit_def)

lemma check_urb_status_fst:
  "fst (check_urb_status u k) =
     (if status (urbs k u) = 0 then 0
      else if device_gone (status (urbs k u)) then status (urbs k u)
      else - EAGAIN)"
  by (simp add: check_urb_status_def device_gone_def Let_def)

lemma check_urb_status_snd:
  "snd (check_urb_status u k) =
     (if status (urbs k u) = - EOVERFLOW then emit (Dev_err ''%s: overflow actual length is %d'') k
      else if status (urbs k u) = 0 \<or> device_gone (status (urbs k u)) then k
      else emit (Dev_err ''%s: unknown status %d'') k)"
  by (auto simp add: check_urb_status_def device_gone_def Let_def errno_defs)

section \<open>Inbound frames of length zero\<close>

text \<open>
  Claim C9. On an inbound completion with status 0 and actual length 0,
  \<open>cport_in_callback\<close> logs, does not call \<open>greybus_data_rcvd\<close> and resubmits the
  urb: the calls it makes are the log line, one \<open>usb_submit_urb\<close> of the same urb and,
  if that submission fails, a second log line.
\<close>

theorem zero_length_frame_dropped:
  assumes "status (urbs k u) = 0" and "actual_length (urbs k u) = 0"
  shows "new_events k (cport_in_callback u k) =
           Dev_err ''%s: no cport id in input buffer?''
           # Usb_submit_urb u (next_submit k)
           # (if next_submit k = 0 then [] else [Dev_err ''%s: error %d in submitting urb.''])
       \<and> filter is_data_rcvd (new_events k (cport_in_callback u k)) = []
       \<and> filter is_submit (new_events k (cport_in_callback u k))
           = [Usb_submit_urb u (next_submit k)]"
proof -
  have "check_urb_status u k = (0, k)"
    using assms by (simp add: check_urb_status_def)
  then have "cport_in_callback u k
               = cport_in_exit u (emit (Dev_err ''%s: no cport id in input buffer?'') k)"
    using assms by (simp add: cport_in_callback_def)
  then have "trace (cport_in_callback u k) =
           trace k @ Dev_err ''%s: no cport id in input buffer?''
           # Usb_submit_urb u (next_submit k)
           # (if next_submit k = 0 then [] else [Dev_err ''%s: error %d in submitting urb.''])"
    by (simp add: cport_in_exit_trace)
  then have "new_events k (cport_in_callback u k) =
           Dev_err ''%s: no cport id in input buffer?''
           # Usb_submit_urb u (next_submit k)
           # (if next_submit k = 0 then [] else [Dev_err ''%s: error %d in submitting urb.''])"
    by (rule new_events_append)
  then show ?thesis by simp
qed

theorem zero_length_frame_dropped_witness:
  "status (urbs (demo_completed 0 []) 0x3000) = 0
   \<and> actual_length (urbs (demo_completed 0 []) 0x3000) = 0
   \<and> new_events (demo_completed 0 []) (cport_in_callback 0x3000 (demo_completed 0 []))
       = [Dev_err ''%s: no cport id in input buffer?'', Usb_submit_urb 0x3000 0]"
proof -
  have a: "status (urbs (demo_completed 0 []) 0x3000) = 0"
    by (simp add: demo_completed_def demo_kernel_def urb0_def)
  have b: "actual_length (urbs (demo_completed 0 []) 0x3000) = 0"
    by (simp add: demo_completed_def demo_kernel_def urb0_def)
  have c: "next_submit (demo_completed 0 []) = 0"
    by (simp add: demo_completed_def demo_kernel_def next_submit_def)
  show ?thesis
    using zero_length_frame_dropped [OF a b] a b c by simp
qed

section \<open>The pool scans\<close>

lemma next_free_scan_find:
  "next_free_scan d i =
     (case find (\<lambda>j. \<not> cport_out_urb_busy d ! j) [i..<NUM_CPORT_OUT_URB] of
        None \<Rightarrow> (0, d)
      | Some j \<Rightarrow>
          (cport_out_urb d ! j, d\<lparr>cport_out_urb_busy := (cport_out_urb_busy d)[j := True]\<rparr>))"
proof (induction d i rule: next_free_scan.induct)
  case (1 d i)
  show ?case
  proof (cases "i < NUM_CPORT_OUT_URB")
    case True
    then show ?thesis
      using 1 by (subst next_free_scan.simps) (simp add: upt_conv_Cons)
  next
    case False
    then show ?thesis
      by (subst next_free_scan.simps) simp
  qed
qed

lemma free_urb_scan_find:
  "free_urb_scan d u i =
     (case find (\<lambda>j. u = cport_out_urb d ! j) [i..<NUM_CPORT_OUT_URB] of
        None \<Rightarrow> (u, d)
      | Some j \<Rightarrow> (0, d\<lparr>cport_out_urb_busy := (cport_out_urb_busy d)[j := False]\<rparr>))"
proof (induction d u i rule: free_urb_scan.induct)
  case (1 d u i)
  show ?case
  proof (cases "i < NUM_CPORT_OUT_URB")
    case True
    then show ?thesis
      using 1 by (subst free_urb_scan.simps) (simp add: upt_conv_Cons)
  next
    case False
    then show ?thesis
      by (subst free_urb_scan.simps) simp
  qed
qed

lemma first_free_SomeD:
  assumes "first_free d = Some j"
  shows "j < NUM_CPORT_OUT_URB" and "\<not> cport_out_urb_busy d ! j"
    and "\<And>i. i < j \<Longrightarrow> cport_out_urb_busy d ! i"
  using assms by (auto simp: first_free_def find_Some_iff)

lemma first_free_None_iff:
  "first_free d = None \<longleftrightarrow> (\<forall>i<NUM_CPORT_OUT_URB. cport_out_urb_busy d ! i)"
  by (auto simp: first_free_def find_None_iff)

lemma some_slot_free_iff: "some_slot_free d \<longleftrightarrow> first_free d \<noteq> None"
  by (auto simp: some_slot_free_def first_free_None_iff list_ex_iff)

lemma slot_of_SomeD:
  assumes "slot_of d u = Some j"
  shows "j < NUM_CPORT_OUT_URB" and "u = cport_out_urb d ! j"
  using assms by (auto simp: slot_of_def find_Some_iff)

lemma slot_of_pool:
  assumes "pool_ok d" and "j < NUM_CPORT_OUT_URB"
  shows "slot_of d (cport_out_urb d ! j) = Some j"
proof -
  have len: "length (cport_out_urb d) = NUM_CPORT_OUT_URB" and dist: "distinct (cport_out_urb d)"
    using assms(1) by (simp_all add: pool_ok_def)
  have "\<And>i. i < j \<Longrightarrow> cport_out_urb d ! j \<noteq> cport_out_urb d ! i"
    using assms(2) len dist by (simp add: nth_eq_iff_index_eq)
  then show ?thesis
    using assms(2) unfolding slot_of_def find_Some_iff
    by (intro exI [of _ j]) simp
qed

lemma slot_of_None_iff:
  assumes "length (cport_out_urb d) = NUM_CPORT_OUT_URB"
  shows "slot_of d u = None \<longleftrightarrow> u \<notin> set (cport_out_urb d)"
  using assms by (auto simp: slot_of_def find_None_iff in_set_conv_nth)

section \<open>Acquire and release\<close>

lemma usb_alloc_urb_eq:
  "usb_alloc_urb k =
     (fst (next_alloc k),
      emit (Usb_alloc_urb (fst (next_alloc k))) (k\<lparr>alloc_results := tl (alloc_results k)\<rparr>))"
  by (cases "alloc_results k") (simp_all add: usb_alloc_urb_def next_alloc_def)

lemma next_alloc_emit [simp]: "fst (next_alloc (emit e k)) = fst (next_alloc k)"
  by (simp add: next_alloc_def split: list.splits)

lemma next_free_urb_pooled:
  assumes "pool_ok (es1 k)" and "first_free (es1 k) = Some j"
  shows "next_free_urb k =
           (cport_out_urb (es1 k) ! j,
            k\<lparr>es1 := (es1 k)\<lparr>cport_out_urb_busy := (cport_out_urb_busy (es1 k))[j := True]\<rparr>\<rparr>)"
proof -
  have "j < length (cport_out_urb (es1 k))"
    using assms first_free_SomeD(1) by (simp add: pool_ok_def)
  then have "cport_out_urb (es1 k) ! j \<in> set (cport_out_urb (es1 k))" by simp
  then have "cport_out_urb (es1 k) ! j \<noteq> 0"
    using assms(1) by (auto simp: pool_ok_def)
  then show ?thesis
    using assms(2) by (simp add: next_free_urb_def next_free_scan_find first_free_def)
qed

lemma next_free_urb_dynamic:
  assumes "first_free (es1 k) = None"
  shows "next_free_urb k =
           usb_alloc_urb
             (emit (Dev_err ''No free CPort OUT urbs, having to dynamically allocate one!'') k)"
  using assms by (simp add: next_free_urb_def next_free_scan_find first_free_def)

lemma free_urb_pooled:
  assumes "pool_ok (es1 k)" and "j < NUM_CPORT_OUT_URB"
  shows "free_urb (cport_out_urb (es1 k) ! j) k =
           emit (Usb_free_urb 0)
             (k\<lparr>es1 := (es1 k)\<lparr>cport_out_urb_busy := (cport_out_urb_busy (es1 k))[j := False]\<rparr>\<rparr>)"
  using slot_of_pool [OF assms]
  by (simp add: free_urb_def free_urb_scan_find slot_of_def usb_free_urb_def)

lemma free_urb_dynamic:
  assumes "length (cport_out_urb (es1 k)) = NUM_CPORT_OUT_URB"
    and "u \<notin> set (cport_out_urb (es1 k))"
  shows "free_urb u k = emit (Usb_free_urb u) k"
  using assms slot_of_None_iff [of "es1 k" u]
  by (simp add: free_urb_def free_urb_scan_find slot_of_def usb_free_urb_def)

section \<open>The send path\<close>

lemma buffer_send_accepted:
  assumes "b \<noteq> 0" and "n \<le> INT_MAX" and "c \<noteq> bad" and "c \<le> U8_MAX"
    and "next_free_urb (k\<lparr>mem := (mem k)(b - 1 := ucast c)\<rparr>) = (u, k2)"
  shows "buffer_send bad c b n k =
     (if u = 0 then (Inl (- ENOMEM), k2)
      else if next_submit k2 \<noteq> 0 then
        (Inl (next_submit k2),
         free_urb u
           (emit (Pr_err ''error %d submitting URB'')
              (emit (Usb_submit_urb u (next_submit k2))
                 ((usb_fill_bulk_urb u (Sndbulkpipe (cport_out_endpoint (es1 k2))) (b - 1)
                     (ucast (n + 1)) Cport_out_callback k2)
                  \<lparr>submit_results := tl (submit_results k2)\<rparr>))))
      else
        (Inr (conceal_urb u),
         emit (Usb_submit_urb u 0)
           ((usb_fill_bulk_urb u (Sndbulkpipe (cport_out_endpoint (es1 k2))) (b - 1)
               (ucast (n + 1)) Cport_out_callback k2)
            \<lparr>submit_results := tl (submit_results k2)\<rparr>)))"
proof -
  have fill: "next_submit (usb_fill_bulk_urb u p tb len cb k2) = next_submit k2"
    "submit_results (usb_fill_bulk_urb u p tb len cb k2) = submit_results k2" for p tb len cb
    by (simp_all add: usb_fill_bulk_urb_def next_submit_def)
  show ?thesis
    using assms by (simp add: buffer_send_def Let_def usb_submit_urb_eq fill not_less [symmetric])
qed

lemma fill_bulk_simps [simp]:
  "trace (usb_fill_bulk_urb u p tb len cb k) = trace k"
  "es1 (usb_fill_bulk_urb u p tb len cb k) = es1 k"
  "mem (usb_fill_bulk_urb u p tb len cb k) = mem k"
  "alloc_results (usb_fill_bulk_urb u p tb len cb k) = alloc_results k"
  "submit_results (usb_fill_bulk_urb u p tb len cb k) = submit_results k"
  "intfdata (usb_fill_bulk_urb u p tb len cb k) = intfdata k"
  "urbs (usb_fill_bulk_urb u p tb len cb k) =
     (urbs k)(u := (urbs k u)\<lparr>pipe := p, transfer_buffer := tb,
        transfer_buffer_length := len, complete := cb\<rparr>)"
  by (simp_all add: usb_fill_bulk_urb_def)

lemma next_submit_simps [simp]:
  "next_submit (k\<lparr>es1 := d\<rparr>) = next_submit k"
  "next_submit (k\<lparr>mem := m\<rparr>) = next_submit k"
  "next_submit (k\<lparr>urbs := us\<rparr>) = next_submit k"
  "next_submit (k\<lparr>trace := t\<rparr>) = next_submit k"
  "next_submit (k\<lparr>alloc_results := a\<rparr>) = next_submit k"
  by (simp_all add: next_submit_def)

lemma next_alloc_simps [simp]:
  "fst (next_alloc (k\<lparr>es1 := d\<rparr>)) = fst (next_alloc k)"
  "fst (next_alloc (k\<lparr>mem := m\<rparr>)) = fst (next_alloc k)"
  "fst (next_alloc (k\<lparr>urbs := us\<rparr>)) = fst (next_alloc k)"
  "fst (next_alloc (k\<lparr>trace := t\<rparr>)) = fst (next_alloc k)"
  "fst (next_alloc (k\<lparr>submit_results := a\<rparr>)) = fst (next_alloc k)"
  by (simp_all add: next_alloc_def split: list.splits)

lemma next_alloc_in_set:
  "fst (next_alloc k) \<noteq> 0 \<Longrightarrow> fst (next_alloc k) \<in> set (alloc_results k)"
  by (cases "alloc_results k") (simp_all add: next_alloc_def)

lemma pool_nth_mem:
  assumes "pool_ok d" and "j < NUM_CPORT_OUT_URB"
  shows "cport_out_urb d ! j \<in> set (cport_out_urb d)"
  using assms by (simp add: pool_ok_def)

lemma pool_nth_nonzero:
  assumes "pool_ok d" and "j < NUM_CPORT_OUT_URB"
  shows "cport_out_urb d ! j \<noteq> 0"
  using pool_nth_mem [OF assms] assms(1) by (auto simp: pool_ok_def)

text \<open>The send path when the pool has a free slot.\<close>

lemma buffer_send_pooled:
  assumes acc: "b \<noteq> 0" "n \<le> INT_MAX" "c \<noteq> bad" "c \<le> U8_MAX"
    and ok: "pool_ok (es1 k)" and ff: "first_free (es1 k) = Some j"
  shows "buffer_send bad c b n k =
     (if next_submit k \<noteq> 0 then
        (Inl (next_submit k),
         k\<lparr>mem := (mem k)(b - 1 := ucast c),
           urbs := (urbs k)(cport_out_urb (es1 k) ! j :=
                     (urbs k (cport_out_urb (es1 k) ! j))
                       \<lparr>pipe := Sndbulkpipe (cport_out_endpoint (es1 k)),
                        transfer_buffer := b - 1,
                        transfer_buffer_length := ucast (n + 1),
                        complete := Cport_out_callback\<rparr>),
           submit_results := tl (submit_results k),
           trace := trace k @ [Usb_submit_urb (cport_out_urb (es1 k) ! j) (next_submit k),
                               Pr_err ''error %d submitting URB'', Usb_free_urb 0]\<rparr>)
      else
        (Inr (conceal_urb (cport_out_urb (es1 k) ! j)),
         k\<lparr>es1 := (es1 k)\<lparr>cport_out_urb_busy := (cport_out_urb_busy (es1 k))[j := True]\<rparr>,
           mem := (mem k)(b - 1 := ucast c),
           urbs := (urbs k)(cport_out_urb (es1 k) ! j :=
                     (urbs k (cport_out_urb (es1 k) ! j))
                       \<lparr>pipe := Sndbulkpipe (cport_out_endpoint (es1 k)),
                        transfer_buffer := b - 1,
                        transfer_buffer_length := ucast (n + 1),
                        complete := Cport_out_callback\<rparr>),
           submit_results := tl (submit_results k),
           trace := trace k @ [Usb_submit_urb (cport_out_urb (es1 k) ! j) 0]\<rparr>))"
proof -
  let ?k1 = "k\<lparr>mem := (mem k)(b - 1 := ucast c)\<rparr>"
  let ?u = "cport_out_urb (es1 k) ! j"
  let ?d = "(es1 k)\<lparr>cport_out_urb_busy := (cport_out_urb_busy (es1 k))[j := True]\<rparr>"
  have j: "j < NUM_CPORT_OUT_URB" and free: "\<not> cport_out_urb_busy (es1 k) ! j"
    using first_free_SomeD [OF ff] by simp_all
  have nf: "next_free_urb ?k1 = (?u, ?k1\<lparr>es1 := ?d\<rparr>)"
    using next_free_urb_pooled [of ?k1 j] ok ff by simp
  have u0: "?u \<noteq> 0"
    using ok j by (rule pool_nth_nonzero)
  have okd: "pool_ok ?d"
    using ok by (simp add: pool_ok_def)
  have undo: "(cport_out_urb_busy (es1 k))[j := False] = cport_out_urb_busy (es1 k)"
    using free list_update_id [of "cport_out_urb_busy (es1 k)" j] by simp
  have fr: "free_urb ?u k' = emit (Usb_free_urb 0)
             (k'\<lparr>es1 := (es1 k')\<lparr>cport_out_urb_busy := (cport_out_urb_busy (es1 k'))[j := False]\<rparr>\<rparr>)"
    if "es1 k' = ?d" for k'
    using free_urb_pooled [of k' j] okd j that by simp
  show ?thesis
    unfolding buffer_send_accepted [OF acc nf]
    using u0 by (simp add: fr undo emit_def usb_fill_bulk_urb_def)
qed

text \<open>The send path when every slot is busy.\<close>

lemma buffer_send_dynamic:
  assumes acc: "b \<noteq> 0" "n \<le> INT_MAX" "c \<noteq> bad" "c \<le> U8_MAX"
    and len: "length (cport_out_urb (es1 k)) = NUM_CPORT_OUT_URB"
    and ff: "first_free (es1 k) = None"
    and fresh: "fst (next_alloc k) \<notin> set (cport_out_urb (es1 k))"
  shows "buffer_send bad c b n k =
     (if fst (next_alloc k) = 0 then
        (Inl (- ENOMEM),
         k\<lparr>mem := (mem k)(b - 1 := ucast c),
           alloc_results := tl (alloc_results k),
           trace := trace k @ [Dev_err ''No free CPort OUT urbs, having to dynamically allocate one!'',
                               Usb_alloc_urb 0]\<rparr>)
      else if next_submit k \<noteq> 0 then
        (Inl (next_submit k),
         k\<lparr>mem := (mem k)(b - 1 := ucast c),
           urbs := (urbs k)(fst (next_alloc k) :=
                     (urbs k (fst (next_alloc k)))
                       \<lparr>pipe := Sndbulkpipe (cport_out_endpoint (es1 k)),
                        transfer_buffer := b - 1,
                        transfer_buffer_length := ucast (n + 1),
                        complete := Cport_out_callback\<rparr>),
           alloc_results := tl (alloc_results k),
           submit_results := tl (submit_results k),
           trace := trace k @ [Dev_err ''No free CPort OUT urbs, having to dynamically allocate one!'',
                               Usb_alloc_urb (fst (next_alloc k)),
                               Usb_submit_urb (fst (next_alloc k)) (next_submit k),
                               Pr_err ''error %d submitting URB'',
                               Usb_free_urb (fst (next_alloc k))]\<rparr>)
      else
        (Inr (conceal_urb (fst (next_alloc k))),
         k\<lparr>mem := (mem k)(b - 1 := ucast c),
           urbs := (urbs k)(fst (next_alloc k) :=
                     (urbs k (fst (next_alloc k)))
                       \<lparr>pipe := Sndbulkpipe (cport_out_endpoint (es1 k)),
                        transfer_buffer := b - 1,
                        transfer_buffer_length := ucast (n + 1),
                        complete := Cport_out_callback\<rparr>),
           alloc_results := tl (alloc_results k),
           submit_results := tl (submit_results k),
           trace := trace k @ [Dev_err ''No free CPort OUT urbs, having to dynamically allocate one!'',
                               Usb_alloc_urb (fst (next_alloc k)),
                               Usb_submit_urb (fst (next_alloc k)) 0]\<rparr>))"
proof -
  let ?k1 = "k\<lparr>mem := (mem k)(b - 1 := ucast c)\<rparr>"
  let ?p = "fst (next_alloc k)"
  have nf: "next_free_urb ?k1 =
      (?p, emit (Usb_alloc_urb ?p)
             ((emit (Dev_err ''No free CPort OUT urbs, having to dynamically allocate one!'') ?k1)
               \<lparr>alloc_results := tl (alloc_results k)\<rparr>))"
    using next_free_urb_dynamic [of ?k1] ff by (simp add: usb_alloc_urb_eq)
  have fr: "free_urb ?p k' = emit (Usb_free_urb ?p) k'" if "es1 k' = es1 k" for k'
    using free_urb_dynamic [of k' ?p] len fresh that by simp
  show ?thesis
    unfolding buffer_send_accepted [OF acc nf]
    by (simp add: fr emit_def usb_fill_bulk_urb_def)
qed

section \<open>Frame facts\<close>

lemma next_free_urb_frame:
  assumes "next_free_urb k = (u, k2)"
  shows "mem k2 = mem k" and "urbs k2 = urbs k" and "submit_results k2 = submit_results k"
    and "\<exists>evs. trace k2 = trace k @ evs \<and> filter is_submit evs = []"
  using assms
  by (auto simp: next_free_urb_def next_free_scan_find usb_alloc_urb_eq Let_def
           split: option.splits if_splits)

lemma free_urb_frame:
  "mem (free_urb u k) = mem k" "urbs (free_urb u k) = urbs k"
  "submit_results (free_urb u k) = submit_results k"
  "alloc_results (free_urb u k) = alloc_results k"
  "trace (free_urb u k) = trace k @ [Usb_free_urb (fst (free_urb_scan (es1 k) u 0))]"
  by (simp_all add: free_urb_def usb_free_urb_def split_beta)

lemma read_bytes_Suc: "read_bytes m p (Suc n) = m p # read_bytes m (p + 1) n"
proof -
  have "[0..<Suc n] = 0 # map Suc [0..<n]"
    by (simp add: upt_conv_Cons map_Suc_upt del: upt_Suc)
  then show ?thesis
    by (simp add: read_bytes_def comp_def add.assoc del: upt_Suc)
qed

lemma length_read_bytes [simp]: "length (read_bytes m p n) = n"
  by (simp add: read_bytes_def)

lemma unat_size_plus1:
  assumes "n \<le> INT_MAX"
  shows "unat (n + 1 :: size_t) = unat n + 1"
proof -
  have "unat n \<le> unat INT_MAX"
    using assms by (simp add: word_le_nat_alt)
  then have "unat n + unat (1 :: size_t) < 2 ^ LENGTH(64)"
    by (simp add: INT_MAX_def)
  then have "unat (n + 1) = unat n + unat (1 :: size_t)"
    by (simp only: unat_add_lem)
  then show ?thesis by simp
qed

lemma unat_transfer_buffer_size:
  assumes "n \<le> INT_MAX"
  shows "unat (ucast (n + 1 :: size_t) :: u32) = unat n + 1"
proof -
  have le: "unat n \<le> unat INT_MAX"
    using assms by (simp add: word_le_nat_alt)
  have "unat (ucast (n + 1) :: u32) = take_bit 32 (unat (n + 1))"
    by (simp add: unsigned_ucast_eq unsigned_take_bit_eq)
  also have "\<dots> = take_bit 32 (unat n + 1)"
    by (simp only: unat_size_plus1 [OF assms])
  also have "\<dots> = unat n + 1"
    using le by (simp add: take_bit_nat_eq_self INT_MAX_def)
  finally show ?thesis .
qed

text \<open>
  The local \<open>transfer_buffer_size\<close> is an \<open>int\<close>. Read as a signed number it is
  \<open>size + 1\<close> for every accepted size but \<open>INT_MAX\<close>, where the conversion yields
  \<open>INT_MIN\<close>; the urb's \<open>transfer_buffer_length\<close> is unsigned and holds
  \<open>size + 1\<close> there as well.
\<close>

lemma transfer_buffer_size_at_INT_MAX:
  "sint (ucast (INT_MAX + 1 :: size_t) :: u32) = - (2 ^ 31)"
  "unat (ucast (INT_MAX + 1 :: size_t) :: u32) = 2 ^ 31"
  by (simp_all add: INT_MAX_def)

lemma transfer_buffer_size_signed:
  assumes "n < INT_MAX"
  shows "sint (ucast (n + 1 :: size_t) :: u32) = int (unat n) + 1"
proof -
  have le: "n \<le> INT_MAX"
    using assms by simp
  have lt: "unat n < unat INT_MAX"
    using assms by (simp add: word_less_nat_alt)
  have u: "unat (ucast (n + 1) :: u32) = unat n + 1"
    by (rule unat_transfer_buffer_size [OF le])
  have lt': "unat n + 1 < 2147483648"
    using lt by (simp add: INT_MAX_def)
  have ui: "uint (ucast (n + 1) :: u32) = int (unat n + 1)"
    by (simp only: uint_nat u)
  have small: "uint (ucast (n + 1) :: u32) < 2 ^ 31"
  proof -
    have "int (unat n + 1) < 2147483648"
      using lt' by linarith
    then show ?thesis
      by (simp add: ui)
  qed
  have "sint (ucast (n + 1) :: u32) = signed_take_bit 31 (uint (ucast (n + 1) :: u32))"
    by (simp add: sint_uint)
  also have "\<dots> = uint (ucast (n + 1) :: u32)"
  proof (rule signed_take_bit_int_eq_self [OF _ small])
    have "(0 :: int) \<le> uint (ucast (n + 1) :: u32)"
      by simp
    then show "- (2 ^ 31) \<le> uint (ucast (n + 1) :: u32)"
      by (rule order_trans [rotated]) simp
  qed
  also have "\<dots> = int (unat n) + 1"
    by (simp add: ui)
  finally show ?thesis .
qed

lemma headroom_apart:
  assumes "i < unat (n :: size_t)"
  shows "(of_nat i :: uintptr) \<noteq> - 1"
proof
  have lt: "unat n < 2 ^ 64"
    using unsigned_less [of n] by simp
  assume "(of_nat i :: uintptr) = - 1"
  then have "unat (of_nat i :: uintptr) = unat (- 1 :: uintptr)"
    by simp
  then have "i = 2 ^ 64 - 1"
    using assms lt by (simp add: unat_of_nat unsigned_minus_1_eq_mask mask_eq_exp_minus_1)
  then show False
    using assms lt by simp
qed

lemma framed_bytes:
  "read_bytes (m(b - 1 := x)) (b - 1) (Suc (unat (n :: size_t))) = x # read_bytes m b (unat n)"
proof -
  have "read_bytes (m(b - 1 := x)) b (unat n) = read_bytes m b (unat n)"
    by (auto simp: read_bytes_def headroom_apart)
  then show ?thesis
    by (simp add: read_bytes_Suc)
qed

text \<open>Every urb that an accepted send submits carries the framed buffer.\<close>

lemma send_frames:
  assumes acc: "b \<noteq> 0" "n \<le> INT_MAX" "c \<noteq> bad" "c \<le> U8_MAX"
    and run: "buffer_send bad c b n k = (res, k')"
    and sub: "Usb_submit_urb u r \<in> set (new_events k k')"
  shows "wire_bytes k' u = ucast c # read_bytes (mem k) b (unat n)"
    and "transfer_buffer (urbs k' u) = b - 1"
    and "unat (transfer_buffer_length (urbs k' u)) = unat n + 1"
proof -
  let ?k1 = "k\<lparr>mem := (mem k)(b - 1 := ucast c)\<rparr>"
  obtain v k2 where nf: "next_free_urb ?k1 = (v, k2)"
    by (cases "next_free_urb ?k1")
  obtain evs where evs: "trace k2 = trace k @ evs" "filter is_submit evs = []"
    using next_free_urb_frame(4) [OF nf] by auto
  have m2: "mem k2 = (mem k)(b - 1 := ucast c)" and u2: "urbs k2 = urbs k"
    using next_free_urb_frame(1,2) [OF nf] by simp_all
  have nosub: "Usb_submit_urb u r \<notin> set evs"
    using evs(2) by (auto simp: filter_empty_conv)
  have "v \<noteq> 0 \<and> u = v \<and> mem k' = (mem k)(b - 1 := ucast c)
        \<and> urbs k' v = (urbs k v)\<lparr>pipe := Sndbulkpipe (cport_out_endpoint (es1 k2)),
            transfer_buffer := b - 1, transfer_buffer_length := ucast (n + 1),
            complete := Cport_out_callback\<rparr>"
    using run sub nosub evs(1) m2 u2 unfolding buffer_send_accepted [OF acc nf]
    by (auto simp: new_events_def free_urb_frame split: if_splits)
  then show "wire_bytes k' u = ucast c # read_bytes (mem k) b (unat n)"
    and "transfer_buffer (urbs k' u) = b - 1"
    and "unat (transfer_buffer_length (urbs k' u)) = unat n + 1"
    using acc(2) by (simp_all add: wire_bytes_def unat_transfer_buffer_size framed_bytes)
qed

lemma send_cookie_submitted:
  assumes run: "buffer_send bad c b n k = (Inr cookie, k')"
  shows "Usb_submit_urb (reveal_urb cookie) 0 \<in> set (new_events k k')"
proof -
  let ?k1 = "k\<lparr>mem := (mem k)(b - 1 := ucast c)\<rparr>"
  have acc: "b \<noteq> 0" "n \<le> INT_MAX" "c \<noteq> bad" "c \<le> U8_MAX"
    using run by (auto simp: buffer_send_def Let_def split: if_splits)
  obtain v k2 where nf: "next_free_urb ?k1 = (v, k2)"
    by (cases "next_free_urb ?k1")
  obtain evs where evs: "trace k2 = trace k @ evs"
    using next_free_urb_frame(4) [OF nf] by auto
  show ?thesis
    using run evs unfolding buffer_send_accepted [OF acc nf]
    by (auto simp: new_events_def reveal_conceal split: if_splits)
qed

text \<open>A received frame of at least one byte, on a completion with status 0.\<close>

lemma receive_unframes:
  assumes st: "status (urbs k u) = 0"
    and bytes: "read_bytes (mem k) (transfer_buffer (urbs k u))
                  (unat (actual_length (urbs k u))) = C # P"
  shows "filter is_data_rcvd (new_events k (cport_in_callback u k)) =
           [Greybus_data_rcvd (ucast C) (transfer_buffer (urbs k u) + 1)
              (ucast (actual_length (urbs k u) - 1))]"
    and "unat (ucast (actual_length (urbs k u) - 1) :: size_t) = length P"
    and "read_bytes (mem k) (transfer_buffer (urbs k u) + 1) (length P) = P"
proof -
  let ?al = "actual_length (urbs k u)"
  let ?tb = "transfer_buffer (urbs k u)"
  have len: "unat ?al = Suc (length P)"
    using arg_cong [OF bytes, of length] by simp
  then have nz: "?al \<noteq> 0"
    by (cases "?al = 0") simp_all
  have hd: "mem k ?tb = C" and tl: "read_bytes (mem k) (?tb + 1) (length P) = P"
    using bytes unfolding len read_bytes_Suc by simp_all
  have cs: "check_urb_status u k = (0, k)"
    using st by (simp add: check_urb_status_def)
  have "trace (cport_in_callback u k) =
          trace k @ Greybus_data_rcvd (ucast C) (?tb + 1) (ucast (?al - 1))
            # Usb_submit_urb u (next_submit k)
            # (if next_submit k = 0 then [] else [Dev_err ''%s: error %d in submitting urb.''])"
    using nz hd by (simp add: cport_in_callback_def cs cport_in_exit_trace Let_def)
  then have "new_events k (cport_in_callback u k) =
          Greybus_data_rcvd (ucast C) (?tb + 1) (ucast (?al - 1))
            # Usb_submit_urb u (next_submit k)
            # (if next_submit k = 0 then [] else [Dev_err ''%s: error %d in submitting urb.''])"
    by (rule new_events_append)
  then show "filter is_data_rcvd (new_events k (cport_in_callback u k)) =
           [Greybus_data_rcvd (ucast C) (?tb + 1) (ucast (?al - 1))]"
    by simp
  have "unat (ucast (?al - 1) :: size_t) = unat (?al - 1)"
    by (simp add: unsigned_ucast_eq unsigned_take_bit_eq take_bit_nat_eq_self
          order_less_trans [OF unsigned_less])
  also have "\<dots> = unat ?al - 1"
    using nz by (simp add: unat_minus_one)
  finally show "unat (ucast (?al - 1) :: size_t) = length P"
    using len by simp
  show "read_bytes (mem k) (?tb + 1) (length P) = P" by (rule tl)
qed

lemma kernel_ok_fresh:
  assumes "kernel_ok k"
  shows "fst (next_alloc k) \<notin> set (cport_out_urb (es1 k))"
proof (cases "fst (next_alloc k) = 0")
  case True
  then show ?thesis
    using assms by (simp add: kernel_ok_def pool_ok_def)
next
  case False
  then have "fst (next_alloc k) \<in> set (alloc_results k)"
    by (rule next_alloc_in_set)
  then show ?thesis
    using assms by (auto simp: kernel_ok_def list_all_iff)
qed

lemma kernel_ok_aligned_alloc:
  assumes "kernel_ok k" and "fst (next_alloc k) \<noteq> 0"
  shows "aligned_ptr (fst (next_alloc k))"
  using next_alloc_in_set [OF assms(2)] assms(1) by (auto simp: kernel_ok_def list_all_iff)

lemma kernel_ok_aligned_pool:
  assumes "kernel_ok k" and "j < NUM_CPORT_OUT_URB"
  shows "aligned_ptr (cport_out_urb (es1 k) ! j)"
proof -
  have "cport_out_urb (es1 k) ! j \<in> set (cport_out_urb (es1 k))"
    using assms by (simp add: kernel_ok_def pool_nth_mem)
  then show ?thesis
    using assms(1) by (auto simp: kernel_ok_def list_all_iff)
qed

lemma buffer_send_cases:
  obtains (rejected) msg where
      "buffer_send bad c b n k = (Inl (- EINVAL), emit (Pr_err msg) k)"
  | (pooled) j where "b \<noteq> 0" "n \<le> INT_MAX" "c \<noteq> bad" "c \<le> U8_MAX"
      "first_free (es1 k) = Some j"
  | (dynamic) "b \<noteq> 0" "n \<le> INT_MAX" "c \<noteq> bad" "c \<le> U8_MAX"
      "first_free (es1 k) = None"
proof (cases "b = 0 \<or> n > INT_MAX \<or> c = bad \<or> c > U8_MAX")
  case True
  then show ?thesis
    using buffer_send_rejected [of b n c bad k] rejected by blast
next
  case False
  then show ?thesis
    using pooled dynamic by (cases "first_free (es1 k)") (auto simp: not_less)
qed

lemma aligned_cookie_nonzero:
  assumes "aligned_ptr u"
  shows "conceal_urb u \<noteq> 0"
proof
  assume "conceal_urb u = 0"
  then have "reveal_urb (conceal_urb u) = reveal_urb 0"
    by simp
  then have "u = 0xbad"
    by (simp add: reveal_conceal) (simp add: reveal_urb_def)
  then show False
    using assms by (simp add: aligned_ptr_def)
qed

text \<open>
  Claim C8. \<open>buffer_cancel\<close> of a null cookie changes nothing; \<open>reveal_urb\<close> undoes
  \<open>conceal_urb\<close> on every pointer; and the cookie of a successful \<open>buffer_send\<close> is
  not null and decodes to the urb that the send submitted last, so that
  \<open>buffer_cancel\<close> calls \<open>usb_kill_urb\<close> on exactly that urb.
\<close>

theorem cancel_decodes_cookie:
  "buffer_cancel 0 k0 = k0
   \<and> reveal_urb (conceal_urb u) = u
   \<and> (kernel_ok k \<and> buffer_send bad c b n k = (Inr cookie, k') \<longrightarrow>
        last (trace k') = Usb_submit_urb (reveal_urb cookie) 0
        \<and> cookie = conceal_urb (reveal_urb cookie)
        \<and> buffer_cancel cookie k2 = emit (Usb_kill_urb (reveal_urb cookie)) k2)"
proof (intro conjI impI)
  show "buffer_cancel 0 k0 = k0"
    by (simp add: buffer_cancel_def)
  show "reveal_urb (conceal_urb u) = u"
    by (rule reveal_conceal)
next
  assume a: "kernel_ok k \<and> buffer_send bad c b n k = (Inr cookie, k')"
  then have ok: "kernel_ok k" and run: "buffer_send bad c b n k = (Inr cookie, k')"
    by simp_all
  have pok: "pool_ok (es1 k)" and len: "length (cport_out_urb (es1 k)) = NUM_CPORT_OUT_URB"
    using ok by (simp_all add: kernel_ok_def pool_ok_def)
  have "\<exists>v. aligned_ptr v \<and> cookie = conceal_urb v \<and> last (trace k') = Usb_submit_urb v 0"
  proof (cases rule: buffer_send_cases [where bad = bad and c = c and b = b and n = n and k = k])
    case (rejected msg)
    then show ?thesis using run by simp
  next
    case (pooled j)
    have "j < NUM_CPORT_OUT_URB"
      using first_free_SomeD(1) [OF pooled(5)] .
    then have "aligned_ptr (cport_out_urb (es1 k) ! j)"
      using ok by (simp add: kernel_ok_aligned_pool)
    then show ?thesis
      using run unfolding buffer_send_pooled [OF pooled(1-4) pok pooled(5)]
      by (auto split: if_splits)
  next
    case dynamic
    show ?thesis
      using run kernel_ok_aligned_alloc [OF ok]
      unfolding buffer_send_dynamic [OF dynamic(1-4) len dynamic(5) kernel_ok_fresh [OF ok]]
      by (auto split: if_splits)
  qed
  then obtain v where v: "aligned_ptr v" "cookie = conceal_urb v"
      "last (trace k') = Usb_submit_urb v 0"
    by blast
  have nz: "cookie \<noteq> 0"
    using v(1,2) aligned_cookie_nonzero by simp
  show "last (trace k') = Usb_submit_urb (reveal_urb cookie) 0"
    using v by (simp add: reveal_conceal)
  show "cookie = conceal_urb (reveal_urb cookie)"
    using v by (simp add: reveal_conceal)
  show "buffer_cancel cookie k2 = emit (Usb_kill_urb (reveal_urb cookie)) k2"
    using nz by (simp add: buffer_cancel_def usb_kill_urb_def)
qed

text \<open>
  Claim C7. When \<open>usb_submit_urb\<close> fails inside \<open>buffer_send\<close>, the call returns that
  error, and the device structure (the pool's urbs and busy flags) is what it was
  before the call. The urb came from the pool exactly if a slot was free; then the
  slot is free again and \<open>usb_free_urb\<close> gets a null pointer. Otherwise the urb was
  allocated by this call and \<open>usb_free_urb\<close> gets it back.
\<close>

theorem submit_failure_releases_slot:
  assumes ok: "kernel_ok k"
    and run: "buffer_send bad c b n k = (res, k')"
    and sub: "Usb_submit_urb u r \<in> set (new_events k k')"
    and fail: "r \<noteq> 0"
  shows "res = Inl r \<and> es1 k' = es1 k
       \<and> some_slot_free (es1 k) = (u \<in> set (cport_out_urb (es1 k)))
       \<and> new_events k k' =
           (if some_slot_free (es1 k) then
              [Usb_submit_urb u r, Pr_err ''error %d submitting URB'', Usb_free_urb 0]
            else
              [Dev_err ''No free CPort OUT urbs, having to dynamically allocate one!'',
               Usb_alloc_urb u, Usb_submit_urb u r, Pr_err ''error %d submitting URB'',
               Usb_free_urb u])"
proof -
  have pok: "pool_ok (es1 k)" and len: "length (cport_out_urb (es1 k)) = NUM_CPORT_OUT_URB"
    using ok by (simp_all add: kernel_ok_def pool_ok_def)
  show ?thesis
  proof (cases rule: buffer_send_cases [where bad = bad and c = c and b = b and n = n and k = k])
    case (rejected msg)
    then show ?thesis using run sub by auto
  next
    case (pooled j)
    have j: "j < NUM_CPORT_OUT_URB"
      using first_free_SomeD(1) [OF pooled(5)] .
    have mem: "cport_out_urb (es1 k) ! j \<in> set (cport_out_urb (es1 k))"
      using pok j by (rule pool_nth_mem)
    have free: "some_slot_free (es1 k)"
      using pooled(5) by (simp add: some_slot_free_iff)
    show ?thesis
      using run sub fail mem free
      unfolding buffer_send_pooled [OF pooled(1-4) pok pooled(5)]
      by (auto simp: new_events_def split: if_splits)
  next
    case dynamic
    have busy: "\<not> some_slot_free (es1 k)"
      using dynamic(5) by (simp add: some_slot_free_iff)
    show ?thesis
      using run sub fail busy kernel_ok_fresh [OF ok]
      unfolding buffer_send_dynamic [OF dynamic(1-4) len dynamic(5) kernel_ok_fresh [OF ok]]
      by (auto simp: new_events_def split: if_splits)
  qed
qed

section \<open>The concrete device\<close>

lemma demo_dev_pool_ok: "pool_ok demo_dev"
  by (simp add: pool_ok_def demo_dev_def NUM_CPORT_OUT_URB_def)

lemma demo_dev_first_free: "first_free demo_dev = Some 0"
  by (simp add: first_free_def demo_dev_def NUM_CPORT_OUT_URB_def upt_conv_Cons)

lemma demo_kernel_ok:
  assumes "es1 k = demo_dev" and "alloc_results k = [0x5000]"
  shows "kernel_ok k"
  using assms demo_dev_pool_ok
  by (simp add: kernel_ok_def) (simp add: demo_dev_def aligned_ptr_def)

lemma demo_accepted:
  "(0x20000 :: uintptr) \<noteq> 0" "(2 :: size_t) \<le> INT_MAX" "(5 :: u16) \<noteq> 0xffff"
  "(5 :: u16) \<le> U8_MAX"
  by (simp_all add: INT_MAX_def U8_MAX_def)

lemma demo_send_pooled:
  assumes "es1 k = demo_dev"
  shows "buffer_send 0xffff 5 0x20000 2 k =
     (if next_submit k \<noteq> 0 then
        (Inl (next_submit k),
         k\<lparr>mem := (mem k)(0x1ffff := 5),
           urbs := (urbs k)(0x4000 :=
                     (urbs k 0x4000)
                       \<lparr>pipe := Sndbulkpipe 3, transfer_buffer := 0x1ffff,
                        transfer_buffer_length := 3, complete := Cport_out_callback\<rparr>),
           submit_results := tl (submit_results k),
           trace := trace k @ [Usb_submit_urb 0x4000 (next_submit k),
                               Pr_err ''error %d submitting URB'', Usb_free_urb 0]\<rparr>)
      else
        (Inr 0x4bad,
         k\<lparr>es1 := demo_dev\<lparr>cport_out_urb_busy :=
                  [True, False, False, False, False, False, False, False]\<rparr>,
           mem := (mem k)(0x1ffff := 5),
           urbs := (urbs k)(0x4000 :=
                     (urbs k 0x4000)
                       \<lparr>pipe := Sndbulkpipe 3, transfer_buffer := 0x1ffff,
                        transfer_buffer_length := 3, complete := Cport_out_callback\<rparr>),
           submit_results := tl (submit_results k),
           trace := trace k @ [Usb_submit_urb 0x4000 0]\<rparr>))"
proof -
  have pok: "pool_ok (es1 k)" and ff: "first_free (es1 k) = Some 0"
    using assms demo_dev_pool_ok demo_dev_first_free by simp_all
  show ?thesis
    unfolding buffer_send_pooled [OF demo_accepted pok ff] assms
    by (simp add: demo_dev_def conceal_urb_def)
qed

theorem cancel_decodes_cookie_witness:
  "kernel_ok demo_send
   \<and> fst (buffer_send 0xffff 5 0x20000 2 demo_send) = Inr 0x4bad
   \<and> last (trace (snd (buffer_send 0xffff 5 0x20000 2 demo_send))) = Usb_submit_urb 0x4000 0
   \<and> buffer_cancel 0x4bad demo_kernel = emit (Usb_kill_urb 0x4000) demo_kernel
   \<and> buffer_cancel 0 demo_kernel = demo_kernel"
proof -
  have d: "es1 demo_send = demo_dev" "alloc_results demo_send = [0x5000]"
      "next_submit demo_send = 0"
    by (simp_all add: demo_send_def demo_kernel_def next_submit_def)
  have ok: "kernel_ok demo_send"
    using d(1,2) by (rule demo_kernel_ok)
  have fst: "fst (buffer_send 0xffff 5 0x20000 2 demo_send) = Inr 0x4bad"
    by (simp add: demo_send_pooled [OF d(1)] d(3))
  then have run: "buffer_send 0xffff 5 0x20000 2 demo_send
      = (Inr 0x4bad, snd (buffer_send 0xffff 5 0x20000 2 demo_send))"
    by (metis prod.collapse)
  have rv: "reveal_urb 0x4bad = 0x4000"
    by (simp add: reveal_urb_def)
  show ?thesis
    using cancel_decodes_cookie [of demo_kernel 0 demo_send "0xffff" 5 "0x20000" 2 "0x4bad"
        "snd (buffer_send 0xffff 5 0x20000 2 demo_send)" demo_kernel] ok run fst rv
    by simp
qed

theorem submit_failure_releases_slot_witness:
  "kernel_ok (demo_kernel\<lparr>submit_results := [- EPIPE]\<rparr>)
   \<and> fst (buffer_send 0xffff 5 0x20000 2 (demo_kernel\<lparr>submit_results := [- EPIPE]\<rparr>))
       = Inl (- EPIPE)
   \<and> es1 (snd (buffer_send 0xffff 5 0x20000 2 (demo_kernel\<lparr>submit_results := [- EPIPE]\<rparr>)))
       = demo_dev
   \<and> new_events (demo_kernel\<lparr>submit_results := [- EPIPE]\<rparr>)
        (snd (buffer_send 0xffff 5 0x20000 2 (demo_kernel\<lparr>submit_results := [- EPIPE]\<rparr>)))
       = [Usb_submit_urb 0x4000 (- EPIPE), Pr_err ''error %d submitting URB'', Usb_free_urb 0]"
proof -
  let ?k = "demo_kernel\<lparr>submit_results := [- EPIPE]\<rparr>"
  let ?r = "buffer_send 0xffff 5 0x20000 2 ?k"
  have d: "es1 ?k = demo_dev" "alloc_results ?k = [0x5000]" "next_submit ?k = - EPIPE"
    by (simp_all add: demo_kernel_def next_submit_def)
  have ok: "kernel_ok ?k"
    using d(1,2) by (rule demo_kernel_ok)
  have run: "?r = (fst ?r, snd ?r)"
    by simp
  have fail: "- EPIPE \<noteq> 0"
    by (simp add: EPIPE_def)
  have sub: "Usb_submit_urb 0x4000 (- EPIPE) \<in> set (new_events ?k (snd ?r))"
    using fail by (simp add: demo_send_pooled [OF d(1)] d(3) new_events_def)
  have free: "some_slot_free (es1 ?k)"
    using demo_dev_first_free d(1) by (simp add: some_slot_free_iff)
  show ?thesis
    using submit_failure_releases_slot [OF ok run sub fail] ok d(1) free
    by simp
qed

section \<open>Framing\<close>

text \<open>
  Claim C1, amended. Sending: when \<open>buffer_send\<close> accepts its arguments, every urb it
  hands to \<open>usb_submit_urb\<close> has the transfer buffer \<open>buffer - 1\<close> and the transfer
  length \<open>size + 1\<close> (the unsigned value of the urb's 32-bit
  \<open>transfer_buffer_length\<close>), and the bytes there are the channel id followed by the
  payload; a send that returns a cookie has submitted the cookie's urb. Receiving: on an inbound
  completion with status 0 whose buffer holds the byte \<open>C\<close> followed by \<open>P\<close>,
  \<open>cport_in_callback\<close> calls \<open>greybus_data_rcvd\<close> once, with channel id \<open>C\<close> and the
  payload \<open>P\<close>, whose length is the total length less one.
\<close>

theorem framing_roundtrip:
  "(b \<noteq> 0 \<and> n \<le> INT_MAX \<and> c \<noteq> bad \<and> c \<le> U8_MAX
      \<and> buffer_send bad c b n k = (res, k')
      \<and> Usb_submit_urb u r \<in> set (new_events k k') \<longrightarrow>
        wire_bytes k' u = ucast c # read_bytes (mem k) b (unat n)
        \<and> transfer_buffer (urbs k' u) = b - 1
        \<and> unat (transfer_buffer_length (urbs k' u)) = unat n + 1)
   \<and> (buffer_send bad c b n k = (Inr cookie, k') \<longrightarrow>
        Usb_submit_urb (reveal_urb cookie) 0 \<in> set (new_events k k'))
   \<and> (status (urbs kr v) = 0
      \<and> read_bytes (mem kr) (transfer_buffer (urbs kr v)) (unat (actual_length (urbs kr v)))
          = C # P \<longrightarrow>
        filter is_data_rcvd (new_events kr (cport_in_callback v kr)) =
          [Greybus_data_rcvd (ucast C) (transfer_buffer (urbs kr v) + 1)
             (ucast (actual_length (urbs kr v) - 1))]
        \<and> unat (ucast (actual_length (urbs kr v) - 1) :: size_t) = length P
        \<and> length P = unat (actual_length (urbs kr v)) - 1
        \<and> read_bytes (mem kr) (transfer_buffer (urbs kr v) + 1) (length P) = P)"
proof (intro conjI impI)
  assume a: "b \<noteq> 0 \<and> n \<le> INT_MAX \<and> c \<noteq> bad \<and> c \<le> U8_MAX
      \<and> buffer_send bad c b n k = (res, k')
      \<and> Usb_submit_urb u r \<in> set (new_events k k')"
  then have acc: "b \<noteq> 0" "n \<le> INT_MAX" "c \<noteq> bad" "c \<le> U8_MAX"
    and run: "buffer_send bad c b n k = (res, k')"
    and sub: "Usb_submit_urb u r \<in> set (new_events k k')"
    by simp_all
  show "wire_bytes k' u = ucast c # read_bytes (mem k) b (unat n)"
    by (rule send_frames(1) [OF acc run sub])
  show "transfer_buffer (urbs k' u) = b - 1"
    by (rule send_frames(2) [OF acc run sub])
  show "unat (transfer_buffer_length (urbs k' u)) = unat n + 1"
    by (rule send_frames(3) [OF acc run sub])
next
  assume "buffer_send bad c b n k = (Inr cookie, k')"
  then show "Usb_submit_urb (reveal_urb cookie) 0 \<in> set (new_events k k')"
    by (rule send_cookie_submitted)
next
  assume a: "status (urbs kr v) = 0
      \<and> read_bytes (mem kr) (transfer_buffer (urbs kr v)) (unat (actual_length (urbs kr v)))
          = C # P"
  then have st: "status (urbs kr v) = 0"
    and bytes: "read_bytes (mem kr) (transfer_buffer (urbs kr v))
                  (unat (actual_length (urbs kr v))) = C # P"
    by simp_all
  show "filter is_data_rcvd (new_events kr (cport_in_callback v kr)) =
          [Greybus_data_rcvd (ucast C) (transfer_buffer (urbs kr v) + 1)
             (ucast (actual_length (urbs kr v) - 1))]"
    by (rule receive_unframes(1) [OF st bytes])
  show "unat (ucast (actual_length (urbs kr v) - 1) :: size_t) = length P"
    by (rule receive_unframes(2) [OF st bytes])
  show "read_bytes (mem kr) (transfer_buffer (urbs kr v) + 1) (length P) = P"
    by (rule receive_unframes(3) [OF st bytes])
  show "length P = unat (actual_length (urbs kr v)) - 1"
    using arg_cong [OF bytes, of length] by simp
qed

lemma demo_completed_fields:
  "status (urbs (demo_completed st bytes) 0x3000) = st"
  "transfer_buffer (urbs (demo_completed st bytes) 0x3000) = 0x10000"
  "actual_length (urbs (demo_completed st bytes) 0x3000) = of_nat (length bytes)"
  "next_submit (demo_completed st bytes) = 0"
  "trace (demo_completed st bytes) = []"
  by (simp_all add: demo_completed_def demo_kernel_def next_submit_def)

lemma demo_completed_bytes:
  "read_bytes (mem (demo_completed st [x, y, z])) 0x10000 3 = [x, y, z]"
  by (simp add: demo_completed_def read_bytes_def upt_conv_Cons)

theorem framing_roundtrip_witness:
  "buffer_send 0xffff 5 0x20000 2 demo_send
     = (Inr 0x4bad, snd (buffer_send 0xffff 5 0x20000 2 demo_send))
   \<and> Usb_submit_urb 0x4000 0
       \<in> set (new_events demo_send (snd (buffer_send 0xffff 5 0x20000 2 demo_send)))
   \<and> read_bytes (mem demo_send) 0x20000 2 = [0xAA, 0xBB]
   \<and> wire_bytes (snd (buffer_send 0xffff 5 0x20000 2 demo_send)) 0x4000 = [5, 0xAA, 0xBB]
   \<and> transfer_buffer (urbs (snd (buffer_send 0xffff 5 0x20000 2 demo_send)) 0x4000) = 0x1ffff
   \<and> unat (transfer_buffer_length (urbs (snd (buffer_send 0xffff 5 0x20000 2 demo_send)) 0x4000)) = 3
   \<and> status (urbs (demo_completed 0 [5, 0xAA, 0xBB]) 0x3000) = 0
   \<and> read_bytes (mem (demo_completed 0 [5, 0xAA, 0xBB])) 0x10000 3 = [5, 0xAA, 0xBB]
   \<and> filter is_data_rcvd
        (new_events (demo_completed 0 [5, 0xAA, 0xBB])
           (cport_in_callback 0x3000 (demo_completed 0 [5, 0xAA, 0xBB])))
       = [Greybus_data_rcvd 5 0x10001 2]
   \<and> read_bytes (mem (demo_completed 0 [5, 0xAA, 0xBB])) 0x10001 2 = [0xAA, 0xBB]"
proof -
  let ?r = "buffer_send 0xffff 5 0x20000 2 demo_send"
  let ?kr = "demo_completed 0 [5, 0xAA, 0xBB]"
  have d: "es1 demo_send = demo_dev" "next_submit demo_send = 0" "trace demo_send = []"
    by (simp_all add: demo_send_def demo_kernel_def next_submit_def)
  have "fst ?r = Inr 0x4bad"
    by (simp add: demo_send_pooled [OF d(1)] d(2))
  then have run: "?r = (Inr 0x4bad, snd ?r)"
    by (metis prod.collapse)
  have sub: "Usb_submit_urb 0x4000 0 \<in> set (new_events demo_send (snd ?r))"
    by (simp add: demo_send_pooled [OF d(1)] d(2) new_events_def)
  have payload: "read_bytes (mem demo_send) 0x20000 (unat (2 :: size_t)) = [0xAA, 0xBB]"
    by (simp add: demo_send_def read_bytes_def upt_conv_Cons)
  have bytes: "read_bytes (mem ?kr) (transfer_buffer (urbs ?kr 0x3000))
                 (unat (actual_length (urbs ?kr 0x3000))) = 5 # [0xAA, 0xBB]"
    by (simp add: demo_completed_fields demo_completed_bytes)
  have st: "status (urbs ?kr 0x3000) = 0"
    by (simp add: demo_completed_fields)
  have rest: "read_bytes (mem ?kr) 0x10001 (Suc (Suc 0)) = read_bytes (mem ?kr) 0x10001 2"
    by (simp add: numeral_2_eq_2)
  show ?thesis
    using framing_roundtrip [of "0x20000" 2 5 "0xffff" demo_send "Inr 0x4bad" "snd ?r" "0x4000" 0
        "0x4bad" ?kr "0x3000" 5 "[0xAA, 0xBB]"]
      demo_accepted run sub payload bytes st rest
    by (simp add: demo_completed_fields)
qed

theorem framing_needs_success_status:
  "read_bytes (mem (demo_completed (- EOVERFLOW) [5, 1, 2]))
       (transfer_buffer (urbs (demo_completed (- EOVERFLOW) [5, 1, 2]) 0x3000))
       (unat (actual_length (urbs (demo_completed (- EOVERFLOW) [5, 1, 2]) 0x3000)))
     = [5, 1, 2]
   \<and> filter is_data_rcvd
        (new_events (demo_completed (- EOVERFLOW) [5, 1, 2])
           (cport_in_callback 0x3000 (demo_completed (- EOVERFLOW) [5, 1, 2])))
       = []"
proof -
  let ?k = "demo_completed (- EOVERFLOW) [5, 1, 2]"
  have ne: "- EOVERFLOW \<noteq> 0" "- EOVERFLOW \<noteq> - EAGAIN" "- EOVERFLOW \<noteq> - EPROTO"
    by (simp_all add: errno_defs)
  have cs: "check_urb_status 0x3000 ?k
              = (- EOVERFLOW, emit (Dev_err ''%s: overflow actual length is %d'') ?k)"
    using ne by (simp add: check_urb_status_def demo_completed_fields Let_def)
  have "trace (cport_in_callback 0x3000 ?k) =
          [Dev_err ''%s: overflow actual length is %d'', Dev_err ''urb cport in error %d (dropped)'']"
    using ne by (simp add: cport_in_callback_def cs demo_completed_fields)
  then have "new_events ?k (cport_in_callback 0x3000 ?k) =
          [Dev_err ''%s: overflow actual length is %d'', Dev_err ''urb cport in error %d (dropped)'']"
    by (simp add: new_events_def demo_completed_fields)
  then show ?thesis
    by (simp add: demo_completed_fields demo_completed_bytes)
qed

section \<open>Status classification\<close>

lemma check_urb_status_frame [simp]:
  "urbs (snd (check_urb_status u k)) = urbs k"
  "mem (snd (check_urb_status u k)) = mem k"
  "es1 (snd (check_urb_status u k)) = es1 k"
  "submit_results (snd (check_urb_status u k)) = submit_results k"
  "alloc_results (snd (check_urb_status u k)) = alloc_results k"
  "next_submit (snd (check_urb_status u k)) = next_submit k"
  by (simp_all add: check_urb_status_snd)

lemma check_urb_status_trace:
  "trace (snd (check_urb_status u k)) =
     trace k @
       (if status (urbs k u) = - EOVERFLOW then [Dev_err ''%s: overflow actual length is %d'']
        else if status (urbs k u) = 0 \<or> device_gone (status (urbs k u)) then []
        else [Dev_err ''%s: unknown status %d''])"
  by (simp add: check_urb_status_snd)

lemma cport_in_callback_trace:
  "trace (cport_in_callback u k) =
     trace (snd (check_urb_status u k)) @
       (if fst (check_urb_status u k) \<noteq> 0 then
          (if fst (check_urb_status u k) = - EAGAIN \<or> fst (check_urb_status u k) = - EPROTO then
             Usb_submit_urb u (next_submit k)
               # (if next_submit k = 0 then [] else [Dev_err ''%s: error %d in submitting urb.''])
           else [Dev_err ''urb cport in error %d (dropped)''])
        else if actual_length (urbs k u) = 0 then
          Dev_err ''%s: no cport id in input buffer?''
            # Usb_submit_urb u (next_submit k)
            # (if next_submit k = 0 then [] else [Dev_err ''%s: error %d in submitting urb.''])
        else
          Greybus_data_rcvd (ucast (mem k (transfer_buffer (urbs k u))))
              (transfer_buffer (urbs k u) + 1) (ucast (actual_length (urbs k u) - 1))
            # Usb_submit_urb u (next_submit k)
            # (if next_submit k = 0 then [] else [Dev_err ''%s: error %d in submitting urb.'']))"
  by (simp add: cport_in_callback_def split_beta Let_def cport_in_exit_trace)

lemma svc_in_callback_trace:
  "trace (svc_in_callback u k) =
     trace (snd (check_urb_status u k)) @
       (if fst (check_urb_status u k) \<noteq> 0 then
          (if fst (check_urb_status u k) = - EAGAIN \<or> fst (check_urb_status u k) = - EPROTO then
             Usb_submit_urb u (next_submit k)
               # (if next_submit k = 0 then [] else [Dev_err ''Can not submit urb for AP data: %d''])
           else [Dev_err ''urb svc in error %d (dropped)''])
        else
          Greybus_svc_in (transfer_buffer (urbs k u)) (actual_length (urbs k u))
            # Usb_submit_urb u (next_submit k)
            # (if next_submit k = 0 then [] else [Dev_err ''Can not submit urb for AP data: %d'']))"
  by (simp add: svc_in_callback_def split_beta Let_def svc_in_exit_trace)

lemma cport_out_callback_trace:
  "trace (cport_out_callback u k) =
     trace (snd (check_urb_status u k)) @
       [Greybus_data_sent (transfer_buffer (urbs k u) + 1) (fst (check_urb_status u k)),
        Usb_free_urb (fst (free_urb_scan (es1 k) u 0))]"
  by (simp add: cport_out_callback_def split_beta Let_def free_urb_frame)

lemma new_events_append2:
  "trace k1 = trace k @ xs \<Longrightarrow> trace k2 = trace k1 @ ys \<Longrightarrow> new_events k k2 = xs @ ys"
  by (simp add: new_events_def)

lemma filter_status_logs [simp]:
  "filter is_submit
     (if a then [Dev_err x] else if b then [] else [Dev_err y]) = []"
  "filter is_data_sent
     (if a then [Dev_err x] else if b then [] else [Dev_err y]) = []"
  by simp_all

lemma receive_resubmits:
  "filter is_submit (new_events k (cport_in_callback u k)) =
     (if fst (check_urb_status u k) = 0 \<or> fst (check_urb_status u k) = - EAGAIN
         \<or> fst (check_urb_status u k) = - EPROTO
      then [Usb_submit_urb u (next_submit k)] else [])"
  "filter is_submit (new_events k (svc_in_callback u k)) =
     (if fst (check_urb_status u k) = 0 \<or> fst (check_urb_status u k) = - EAGAIN
         \<or> fst (check_urb_status u k) = - EPROTO
      then [Usb_submit_urb u (next_submit k)] else [])"
  unfolding new_events_append2 [OF check_urb_status_trace cport_in_callback_trace]
    new_events_append2 [OF check_urb_status_trace svc_in_callback_trace]
  by simp_all

lemma data_sent_events:
  "filter is_data_sent (new_events k (cport_out_callback u k)) =
     [Greybus_data_sent (transfer_buffer (urbs k u) + 1) (fst (check_urb_status u k))]"
  unfolding new_events_append2 [OF check_urb_status_trace cport_out_callback_trace]
  by simp

text \<open>
  Claim C5, amended. \<open>check_urb_status\<close> maps status 0 to 0; it maps \<open>-EOVERFLOW\<close>
  (after a log line), \<open>-ECONNRESET\<close>, \<open>-ENOENT\<close>, \<open>-ESHUTDOWN\<close>, \<open>-EILSEQ\<close> and
  \<open>-EPROTO\<close> to themselves; it maps every other status to \<open>-EAGAIN\<close> with a log
  line. The receive handlers resubmit the urb exactly when the classified status is 0,
  \<open>-EAGAIN\<close> or \<open>-EPROTO\<close>; the send handler passes the classified status to
  \<open>greybus_data_sent\<close>.
\<close>

theorem check_urb_status_classification:
  "fst (check_urb_status u k) =
     (if status (urbs k u) = 0 then 0
      else if device_gone (status (urbs k u)) then status (urbs k u)
      else - EAGAIN)
   \<and> new_events k (snd (check_urb_status u k)) =
     (if status (urbs k u) = - EOVERFLOW then [Dev_err ''%s: overflow actual length is %d'']
      else if status (urbs k u) = 0 \<or> device_gone (status (urbs k u)) then []
      else [Dev_err ''%s: unknown status %d''])
   \<and> filter is_submit (new_events k (cport_in_callback u k)) =
     (if fst (check_urb_status u k) = 0 \<or> fst (check_urb_status u k) = - EAGAIN
         \<or> fst (check_urb_status u k) = - EPROTO
      then [Usb_submit_urb u (next_submit k)] else [])
   \<and> filter is_submit (new_events k (svc_in_callback u k)) =
     (if fst (check_urb_status u k) = 0 \<or> fst (check_urb_status u k) = - EAGAIN
         \<or> fst (check_urb_status u k) = - EPROTO
      then [Usb_submit_urb u (next_submit k)] else [])
   \<and> filter is_data_sent (new_events k (cport_out_callback u k)) =
     [Greybus_data_sent (transfer_buffer (urbs k u) + 1) (fst (check_urb_status u k))]"
proof (intro conjI)
  show "fst (check_urb_status u k) =
     (if status (urbs k u) = 0 then 0
      else if device_gone (status (urbs k u)) then status (urbs k u)
      else - EAGAIN)"
    by (rule check_urb_status_fst)
  show "new_events k (snd (check_urb_status u k)) =
     (if status (urbs k u) = - EOVERFLOW then [Dev_err ''%s: overflow actual length is %d'']
      else if status (urbs k u) = 0 \<or> device_gone (status (urbs k u)) then []
      else [Dev_err ''%s: unknown status %d''])"
    by (rule new_events_append [OF check_urb_status_trace])
  show "filter is_submit (new_events k (cport_in_callback u k)) =
     (if fst (check_urb_status u k) = 0 \<or> fst (check_urb_status u k) = - EAGAIN
         \<or> fst (check_urb_status u k) = - EPROTO
      then [Usb_submit_urb u (next_submit k)] else [])"
    by (rule receive_resubmits(1))
  show "filter is_submit (new_events k (svc_in_callback u k)) =
     (if fst (check_urb_status u k) = 0 \<or> fst (check_urb_status u k) = - EAGAIN
         \<or> fst (check_urb_status u k) = - EPROTO
      then [Usb_submit_urb u (next_submit k)] else [])"
    by (rule receive_resubmits(2))
  show "filter is_data_sent (new_events k (cport_out_callback u k)) =
     [Greybus_data_sent (transfer_buffer (urbs k u) + 1) (fst (check_urb_status u k))]"
    by (rule data_sent_events)
qed

text \<open>An endpoint halt (\<open>-EPIPE\<close>) is not a case label: it is classified as unknown.\<close>

theorem check_urb_status_classification_witness:
  "fst (check_urb_status 0x3000 (demo_completed (- EPIPE) [])) = - EAGAIN
   \<and> new_events (demo_completed (- EPIPE) [])
        (snd (check_urb_status 0x3000 (demo_completed (- EPIPE) [])))
       = [Dev_err ''%s: unknown status %d'']
   \<and> filter is_submit
        (new_events (demo_completed (- EPIPE) [])
           (cport_in_callback 0x3000 (demo_completed (- EPIPE) [])))
       = [Usb_submit_urb 0x3000 0]"
proof -
  let ?k = "demo_completed (- EPIPE) []"
  have ng: "\<not> device_gone (- EPIPE)" "- EPIPE \<noteq> 0" "- EPIPE \<noteq> - EOVERFLOW"
    by (simp_all add: device_gone_def errno_defs)
  show ?thesis
    using check_urb_status_classification [of "0x3000" ?k] ng
    by (simp add: demo_completed_fields)
qed

theorem overflow_is_not_resubmitted:
  "status (urbs (demo_completed (- EOVERFLOW) [5, 1, 2]) 0x3000) = - EOVERFLOW
   \<and> fst (check_urb_status 0x3000 (demo_completed (- EOVERFLOW) [5, 1, 2])) = - EOVERFLOW
   \<and> - EOVERFLOW \<noteq> - EAGAIN
   \<and> filter is_submit
        (new_events (demo_completed (- EOVERFLOW) [5, 1, 2])
           (cport_in_callback 0x3000 (demo_completed (- EOVERFLOW) [5, 1, 2])))
       = []
   \<and> filter is_submit
        (new_events (demo_completed (- EOVERFLOW) [5, 1, 2])
           (svc_in_callback 0x3000 (demo_completed (- EOVERFLOW) [5, 1, 2])))
       = []"
proof -
  let ?k = "demo_completed (- EOVERFLOW) [5, 1, 2]"
  have ne: "- EOVERFLOW \<noteq> 0" "- EOVERFLOW \<noteq> - EAGAIN" "- EOVERFLOW \<noteq> - EPROTO"
    by (simp_all add: errno_defs)
  have g: "device_gone (- EOVERFLOW)"
    by (simp add: device_gone_def)
  have c: "fst (check_urb_status 0x3000 ?k) = - EOVERFLOW"
    using ne g by (simp add: check_urb_status_fst demo_completed_fields)
  show ?thesis
    using ne by (simp add: receive_resubmits c demo_completed_fields)
qed

section \<open>Device-gone statuses on the receive paths\<close>

text \<open>
  Claim C4, amended. When the status of a receive completion is one of the statuses that
  \<open>check_urb_status\<close> returns unchanged as ``device is gone'', and it is not
  \<open>-EPROTO\<close>, then \<open>cport_in_callback\<close> and \<open>svc_in_callback\<close> return without
  calling \<open>usb_submit_urb\<close>: the last thing they do is to log that the urb is dropped.
\<close>

theorem device_gone_not_resubmitted:
  assumes gone: "device_gone (status (urbs k u))"
    and np: "status (urbs k u) \<noteq> - EPROTO"
  shows "fst (check_urb_status u k) = status (urbs k u)
       \<and> filter is_submit (new_events k (cport_in_callback u k)) = []
       \<and> filter is_submit (new_events k (svc_in_callback u k)) = []
       \<and> last (trace (cport_in_callback u k)) = Dev_err ''urb cport in error %d (dropped)''
       \<and> last (trace (svc_in_callback u k)) = Dev_err ''urb svc in error %d (dropped)''"
proof -
  have ne: "status (urbs k u) \<noteq> 0" "status (urbs k u) \<noteq> - EAGAIN"
    using gone by (auto simp: device_gone_def errno_defs)
  have c: "fst (check_urb_status u k) = status (urbs k u)"
    using gone ne by (simp add: check_urb_status_fst)
  show ?thesis
    using ne np by (simp add: c receive_resubmits cport_in_callback_trace svc_in_callback_trace)
qed

theorem device_gone_not_resubmitted_witness:
  "device_gone (status (urbs (demo_completed (- ESHUTDOWN) []) 0x3000))
   \<and> status (urbs (demo_completed (- ESHUTDOWN) []) 0x3000) \<noteq> - EPROTO
   \<and> fst (check_urb_status 0x3000 (demo_completed (- ESHUTDOWN) [])) = - ESHUTDOWN
   \<and> filter is_submit
        (new_events (demo_completed (- ESHUTDOWN) [])
           (cport_in_callback 0x3000 (demo_completed (- ESHUTDOWN) [])))
       = []"
proof -
  let ?k = "demo_completed (- ESHUTDOWN) []"
  have gone: "device_gone (status (urbs ?k 0x3000))"
    by (simp add: demo_completed_fields device_gone_def)
  have np: "status (urbs ?k 0x3000) \<noteq> - EPROTO"
    by (simp add: demo_completed_fields errno_defs)
  show ?thesis
    using device_gone_not_resubmitted [OF gone np] gone np
    by (simp add: demo_completed_fields)
qed

theorem eproto_is_resubmitted:
  "device_gone (status (urbs (demo_completed (- EPROTO) []) 0x3000))
   \<and> fst (check_urb_status 0x3000 (demo_completed (- EPROTO) [])) = - EPROTO
   \<and> filter is_submit
        (new_events (demo_completed (- EPROTO) [])
           (cport_in_callback 0x3000 (demo_completed (- EPROTO) [])))
       = [Usb_submit_urb 0x3000 0]
   \<and> filter is_submit
        (new_events (demo_completed (- EPROTO) [])
           (svc_in_callback 0x3000 (demo_completed (- EPROTO) [])))
       = [Usb_submit_urb 0x3000 0]"
proof -
  let ?k = "demo_completed (- EPROTO) []"
  have g: "device_gone (- EPROTO)"
    by (simp add: device_gone_def)
  have ne: "- EPROTO \<noteq> 0"
    by (simp add: errno_defs)
  have c: "fst (check_urb_status 0x3000 ?k) = - EPROTO"
    using ne g by (simp add: check_urb_status_fst demo_completed_fields)
  show ?thesis
    using g by (simp add: receive_resubmits c demo_completed_fields)
qed

section \<open>Mutual exclusion on the pool\<close>

lemma kernel_ok_busy:
  assumes "kernel_ok k"
    and "cport_out_urb (es1 k') = cport_out_urb (es1 k)"
    and "length (cport_out_urb_busy (es1 k')) = length (cport_out_urb_busy (es1 k))"
    and "set (alloc_results k') \<subseteq> set (alloc_results k)"
  shows "kernel_ok k'"
  using assms by (auto simp: kernel_ok_def pool_ok_def list_all_iff)

lemma pool_index:
  assumes "pool_ok d" and "u \<in> set (cport_out_urb d)"
  obtains j where "j < NUM_CPORT_OUT_URB" and "u = cport_out_urb d ! j"
  using assms by (auto simp: pool_ok_def in_set_conv_nth)

lemma pool_nth_eq:
  assumes "pool_ok d" and "i < NUM_CPORT_OUT_URB" and "j < NUM_CPORT_OUT_URB"
  shows "cport_out_urb d ! i = cport_out_urb d ! j \<longleftrightarrow> i = j"
  using assms by (simp add: pool_ok_def nth_eq_iff_index_eq)

lemma count_list_remove1_le: "count_list (remove1 u xs) p \<le> count_list xs p"
  by (induction xs) auto

lemma count_list_remove1_self:
  "count_list xs u \<le> 1 \<Longrightarrow> u \<notin> set (remove1 u xs)"
  by (induction xs) (auto simp: count_list_0_iff split: if_splits)

lemma exclusive_iff:
  "exclusive (k, owned) \<longleftrightarrow> (\<forall>p\<in>set (cport_out_urb (es1 k)). count_list owned p \<le> 1)"
  by (simp add: exclusive_def list_all_iff)

lemma tl_subset: "set (tl xs) \<subseteq> set xs"
  by (cases xs) auto

lemma owner_inv_acquire:
  assumes inv: "owner_inv (k, owned)"
  shows "owner_inv (pool_step Acquire (k, owned))"
proof -
  have ok: "kernel_ok k" and pok: "pool_ok (es1 k)"
    and ex: "\<And>p. p \<in> set (cport_out_urb (es1 k)) \<Longrightarrow> count_list owned p \<le> 1"
    and ob: "\<And>j. j < NUM_CPORT_OUT_URB \<Longrightarrow> cport_out_urb (es1 k) ! j \<in> set owned
               \<Longrightarrow> cport_out_urb_busy (es1 k) ! j"
    using inv by (auto simp: owner_inv_def exclusive_iff kernel_ok_def)
  show ?thesis
  proof (cases "first_free (es1 k)")
    case (Some j)
    let ?u = "cport_out_urb (es1 k) ! j"
    let ?k' = "k\<lparr>es1 := (es1 k)\<lparr>cport_out_urb_busy := (cport_out_urb_busy (es1 k))[j := True]\<rparr>\<rparr>"
    have j: "j < NUM_CPORT_OUT_URB" and free: "\<not> cport_out_urb_busy (es1 k) ! j"
      using first_free_SomeD [OF Some] by simp_all
    have u0: "?u \<noteq> 0"
      using pok j by (rule pool_nth_nonzero)
    have notowned: "?u \<notin> set owned"
      using ob [OF j] free by blast
    have st: "pool_step Acquire (k, owned) = (?k', ?u # owned)"
      using u0 by (simp add: next_free_urb_pooled [OF pok Some])
    have ok': "kernel_ok ?k'"
      using ok by (rule kernel_ok_busy) simp_all
    have len: "length (cport_out_urb_busy (es1 k)) = NUM_CPORT_OUT_URB"
      using pok by (simp add: pool_ok_def)
    have ex': "exclusive (?k', ?u # owned)"
      using ex notowned by (auto simp: exclusive_iff count_list_0_iff)
    have ob': "cport_out_urb_busy (es1 ?k') ! i"
      if "i < NUM_CPORT_OUT_URB" and "cport_out_urb (es1 ?k') ! i \<in> set (?u # owned)" for i
    proof (cases "i = j")
      case True
      then show ?thesis using j len by simp
    next
      case False
      then have "cport_out_urb (es1 k) ! i \<noteq> ?u"
        using pool_nth_eq [OF pok that(1) j] by simp
      then have "cport_out_urb (es1 k) ! i \<in> set owned"
        using that(2) by simp
      then show ?thesis
        using ob [OF that(1)] False by simp
    qed
    show ?thesis
      unfolding st owner_inv_def using ok' ex' ob' by simp
  next
    case None
    let ?p = "fst (next_alloc k)"
    let ?k' = "emit (Usb_alloc_urb ?p)
                 ((emit (Dev_err ''No free CPort OUT urbs, having to dynamically allocate one!'') k)
                    \<lparr>alloc_results := tl (alloc_results k)\<rparr>)"
    have st: "pool_step Acquire (k, owned) = (?k', if ?p \<noteq> 0 then ?p # owned else owned)"
      by (simp add: next_free_urb_dynamic [OF None] usb_alloc_urb_eq)
    have fresh: "?p \<notin> set (cport_out_urb (es1 k))"
      using ok by (rule kernel_ok_fresh)
    have ok': "kernel_ok ?k'"
      using ok by (rule kernel_ok_busy) (simp_all add: tl_subset)
    have ex': "exclusive (?k', if ?p \<noteq> 0 then ?p # owned else owned)"
      using ex fresh by (auto simp: exclusive_iff)
    have ob': "cport_out_urb_busy (es1 ?k') ! i"
      if "i < NUM_CPORT_OUT_URB"
        and "cport_out_urb (es1 ?k') ! i \<in> set (if ?p \<noteq> 0 then ?p # owned else owned)" for i
    proof -
      have "cport_out_urb (es1 k) ! i \<noteq> ?p"
        using fresh pool_nth_mem [OF pok that(1)] by auto
      then have "cport_out_urb (es1 k) ! i \<in> set owned"
        using that(2) by (auto split: if_splits)
      then show ?thesis
        using ob [OF that(1)] by simp
    qed
    show ?thesis
      unfolding st owner_inv_def using ok' ex' ob' by simp
  qed
qed

lemma owner_inv_release:
  assumes inv: "owner_inv (k, owned)"
  shows "owner_inv (pool_step (Release u) (k, owned))"
proof -
  have ok: "kernel_ok k" and pok: "pool_ok (es1 k)"
    and ex: "\<And>p. p \<in> set (cport_out_urb (es1 k)) \<Longrightarrow> count_list owned p \<le> 1"
    and ob: "\<And>j. j < NUM_CPORT_OUT_URB \<Longrightarrow> cport_out_urb (es1 k) ! j \<in> set owned
               \<Longrightarrow> cport_out_urb_busy (es1 k) ! j"
    using inv by (auto simp: owner_inv_def exclusive_iff kernel_ok_def)
  have ex_le: "count_list (remove1 u owned) p \<le> 1" if "p \<in> set (cport_out_urb (es1 k))" for p
    using ex [OF that] count_list_remove1_le [of u owned p] by simp
  show ?thesis
  proof (cases "u \<in> set (cport_out_urb (es1 k))")
    case True
    then obtain j where j: "j < NUM_CPORT_OUT_URB" and u: "u = cport_out_urb (es1 k) ! j"
      using pool_index [OF pok] by blast
    let ?k' = "emit (Usb_free_urb 0)
        (k\<lparr>es1 := (es1 k)\<lparr>cport_out_urb_busy := (cport_out_urb_busy (es1 k))[j := False]\<rparr>\<rparr>)"
    have st: "pool_step (Release u) (k, owned) = (?k', remove1 u owned)"
      using free_urb_pooled [OF pok j] u by simp
    have ok': "kernel_ok ?k'"
      using ok by (rule kernel_ok_busy) simp_all
    have gone: "u \<notin> set (remove1 u owned)"
      using ex [OF True] by (rule count_list_remove1_self)
    have ob': "cport_out_urb_busy (es1 ?k') ! i"
      if "i < NUM_CPORT_OUT_URB" and "cport_out_urb (es1 ?k') ! i \<in> set (remove1 u owned)" for i
    proof -
      have "i \<noteq> j"
        using that(2) gone u by auto
      moreover have "cport_out_urb (es1 k) ! i \<in> set owned"
        using that(2) set_remove1_subset [of u owned] by auto
      ultimately show ?thesis
        using ob [OF that(1)] by simp
    qed
    show ?thesis
      unfolding st owner_inv_def using ok' ex_le ob' by (simp add: exclusive_iff)
  next
    case False
    have len: "length (cport_out_urb (es1 k)) = NUM_CPORT_OUT_URB"
      using pok by (simp add: pool_ok_def)
    have st: "pool_step (Release u) (k, owned) = (emit (Usb_free_urb u) k, remove1 u owned)"
      using free_urb_dynamic [OF len False] by simp
    have ok': "kernel_ok (emit (Usb_free_urb u) k)"
      using ok by (rule kernel_ok_busy) simp_all
    have ob': "cport_out_urb_busy (es1 k) ! i"
      if "i < NUM_CPORT_OUT_URB" and "cport_out_urb (es1 k) ! i \<in> set (remove1 u owned)" for i
      using ob [OF that(1)] that(2) set_remove1_subset [of u owned] by auto
    show ?thesis
      unfolding st owner_inv_def using ok' ex_le ob' by (simp add: exclusive_iff)
  qed
qed

lemma owner_inv_step: "owner_inv s \<Longrightarrow> owner_inv (pool_step x s)"
  by (cases s; cases x) (simp_all only: owner_inv_acquire owner_inv_release)

lemma owner_inv_run: "owner_inv s \<Longrightarrow> owner_inv (pool_run xs s)"
  by (induction xs arbitrary: s) (simp_all add: owner_inv_step)

lemma owner_inv_idle:
  assumes "kernel_ok k" and "pool_idle (es1 k)"
  shows "owner_inv (k, [])"
  using assms by (simp add: owner_inv_def exclusive_def list_all_iff)

lemma next_free_urb_pool [simp]:
  "cport_out_urb (es1 (snd (next_free_urb k))) = cport_out_urb (es1 k)"
  by (simp add: next_free_urb_def next_free_scan_find usb_alloc_urb_eq Let_def
        split: option.splits)

lemma free_urb_pool [simp]:
  "cport_out_urb (es1 (free_urb u k)) = cport_out_urb (es1 k)"
  by (simp add: free_urb_def free_urb_scan_find usb_free_urb_def split: option.splits)

lemma pool_step_pool:
  "cport_out_urb (es1 (fst (pool_step x s))) = cport_out_urb (es1 (fst s))"
proof (cases s)
  case (Pair k owned)
  show ?thesis
  proof (cases x)
    case Acquire
    have "cport_out_urb (es1 (fst (pool_step Acquire (k, owned))))
            = cport_out_urb (es1 (snd (next_free_urb k)))"
      by (simp add: split_beta)
    then show ?thesis using Pair Acquire by simp
  next
    case (Release u)
    then show ?thesis using Pair by simp
  qed
qed

lemma pool_run_pool:
  "cport_out_urb (es1 (fst (pool_run xs s))) = cport_out_urb (es1 (fst s))"
  by (induction xs arbitrary: s) (simp_all add: pool_step_pool)

lemma acquire_takes_free_slot:
  assumes ok: "kernel_ok k" and nf: "next_free_urb k = (u, k')"
    and pooled: "u \<in> set (cport_out_urb (es1 k))"
  shows "\<exists>j<NUM_CPORT_OUT_URB. u = cport_out_urb (es1 k) ! j
           \<and> \<not> cport_out_urb_busy (es1 k) ! j \<and> cport_out_urb_busy (es1 k') ! j"
proof (cases "first_free (es1 k)")
  case (Some j)
  have pok: "pool_ok (es1 k)"
    using ok by (simp add: kernel_ok_def)
  have j: "j < NUM_CPORT_OUT_URB" and free: "\<not> cport_out_urb_busy (es1 k) ! j"
    using first_free_SomeD [OF Some] by simp_all
  have "j < length (cport_out_urb_busy (es1 k))"
    using pok j by (simp add: pool_ok_def)
  then show ?thesis
    using nf j free unfolding next_free_urb_pooled [OF pok Some] by auto
next
  case None
  have "u = fst (next_alloc k)"
    using nf unfolding next_free_urb_dynamic [OF None] by (simp add: usb_alloc_urb_eq)
  then show ?thesis
    using kernel_ok_fresh [OF ok] pooled by simp
qed

lemma release_frees_slot:
  assumes pok: "pool_ok (es1 k)" and j: "j < NUM_CPORT_OUT_URB"
  shows "\<not> cport_out_urb_busy (es1 (free_urb (cport_out_urb (es1 k) ! j) k)) ! j"
proof -
  have "j < length (cport_out_urb_busy (es1 k))"
    using pok j by (simp add: pool_ok_def)
  then show ?thesis
    by (simp add: free_urb_pooled [OF pok j])
qed

lemma owned_not_handed_out:
  assumes inv: "owner_inv (k, owned)"
    and own: "u \<in> set owned" and pooled: "u \<in> set (cport_out_urb (es1 k))"
  shows "fst (next_free_urb k) \<noteq> u"
proof
  assume eq: "fst (next_free_urb k) = u"
  have ok: "kernel_ok k"
    using inv by (simp add: owner_inv_def)
  have pok: "pool_ok (es1 k)"
    using ok by (simp add: kernel_ok_def)
  have nf: "next_free_urb k = (u, snd (next_free_urb k))"
    using eq by (metis prod.collapse)
  obtain j where j: "j < NUM_CPORT_OUT_URB" "u = cport_out_urb (es1 k) ! j"
      "\<not> cport_out_urb_busy (es1 k) ! j"
    using acquire_takes_free_slot [OF ok nf pooled] by blast
  have "cport_out_urb_busy (es1 k) ! j"
    using inv j(1,2) own by (simp add: owner_inv_def)
  then show False
    using j(3) by simp
qed

text \<open>
  Claim C3. Start from a well-formed state whose pool is idle and run any sequence of
  acquire (\<open>next_free_urb\<close>) and release (\<open>free_urb\<close>) operations. Then no pool urb
  is held twice among the urbs handed out and not released, the pool still holds the
  same eight urbs, and a pool urb that is held is not what the next \<open>next_free_urb\<close>
  returns. In every well-formed state, a pool urb that \<open>next_free_urb\<close> returns comes
  from a slot whose busy flag was false and is true afterwards, and \<open>free_urb\<close> of a
  pool urb leaves the busy flag of its slot false.
\<close>

theorem pool_mutual_exclusion:
  assumes ok: "kernel_ok k" and idle: "pool_idle (es1 k)"
  shows "exclusive (pool_run xs (k, []))
       \<and> cport_out_urb (es1 (fst (pool_run xs (k, [])))) = cport_out_urb (es1 k)
       \<and> (\<forall>u \<in> set (snd (pool_run xs (k, []))).
            u \<in> set (cport_out_urb (es1 k)) \<longrightarrow>
            fst (next_free_urb (fst (pool_run xs (k, [])))) \<noteq> u)
       \<and> (\<forall>k1 u k2. kernel_ok k1 \<and> next_free_urb k1 = (u, k2)
              \<and> u \<in> set (cport_out_urb (es1 k1)) \<longrightarrow>
            (\<exists>j<NUM_CPORT_OUT_URB. u = cport_out_urb (es1 k1) ! j
               \<and> \<not> cport_out_urb_busy (es1 k1) ! j \<and> cport_out_urb_busy (es1 k2) ! j))
       \<and> (\<forall>k1 j. kernel_ok k1 \<and> j < NUM_CPORT_OUT_URB \<longrightarrow>
            \<not> cport_out_urb_busy (es1 (free_urb (cport_out_urb (es1 k1) ! j) k1)) ! j)"
proof -
  let ?s = "pool_run xs (k, [])"
  have inv: "owner_inv ?s"
    using owner_inv_idle [OF ok idle] by (rule owner_inv_run)
  have pool: "cport_out_urb (es1 (fst ?s)) = cport_out_urb (es1 k)"
    by (simp add: pool_run_pool)
  have ex: "exclusive ?s"
    using inv by (simp add: owner_inv_def)
  have held: "fst (next_free_urb (fst ?s)) \<noteq> u"
    if "u \<in> set (snd ?s)" and "u \<in> set (cport_out_urb (es1 k))" for u
    using owned_not_handed_out [of "fst ?s" "snd ?s" u] inv that pool by simp
  have rel: "\<not> cport_out_urb_busy (es1 (free_urb (cport_out_urb (es1 k1) ! j) k1)) ! j"
    if "kernel_ok k1" and "j < NUM_CPORT_OUT_URB" for k1 j
    using that by (simp add: release_frees_slot kernel_ok_def)
  show ?thesis
    using ex pool held acquire_takes_free_slot rel by blast
qed

theorem pool_mutual_exclusion_witness:
  "kernel_ok demo_kernel \<and> pool_idle (es1 demo_kernel)
   \<and> snd (pool_run [Acquire, Acquire, Release 0x4000, Acquire] (demo_kernel, []))
       = [0x4000, 0x4100]
   \<and> exclusive (pool_run [Acquire, Acquire, Release 0x4000, Acquire] (demo_kernel, []))
   \<and> fst (next_free_urb
            (fst (pool_run [Acquire, Acquire, Release 0x4000, Acquire] (demo_kernel, []))))
       = 0x4200"
proof -
  let ?s = "pool_run [Acquire, Acquire, Release 0x4000, Acquire] (demo_kernel, [])"
  have ok: "kernel_ok demo_kernel"
    by (rule demo_kernel_ok) (simp_all add: demo_kernel_def)
  have idle: "pool_idle (es1 demo_kernel)"
    by (simp add: pool_idle_def demo_kernel_def demo_dev_def NUM_CPORT_OUT_URB_def
          numeral_eq_Suc)
  have owned: "snd ?s = [0x4000, 0x4100]"
    by (simp add: next_free_urb_def next_free_scan.simps free_urb_def free_urb_scan.simps
          usb_free_urb_def emit_def demo_kernel_def demo_dev_def NUM_CPORT_OUT_URB_def)
  have nxt: "fst (next_free_urb (fst ?s)) = 0x4200"
    by (simp add: next_free_urb_def next_free_scan.simps free_urb_def free_urb_scan.simps
          usb_free_urb_def emit_def demo_kernel_def demo_dev_def NUM_CPORT_OUT_URB_def)
  show ?thesis
    using pool_mutual_exclusion [OF ok idle, of "[Acquire, Acquire, Release 0x4000, Acquire]"]
      ok idle owned nxt
    by simp
qed

section \<open>Sends within the capacity of the pool\<close>

lemma flight_inv_has_free:
  assumes inv: "flight_inv (k, fl)" and cap: "Suc (length fl) \<le> NUM_CPORT_OUT_URB"
  shows "first_free (es1 k) \<noteq> None"
proof
  assume "first_free (es1 k) = None"
  then have busy: "\<And>j. j < NUM_CPORT_OUT_URB \<Longrightarrow> cport_out_urb_busy (es1 k) ! j"
    by (simp add: first_free_None_iff)
  have pok: "pool_ok (es1 k)"
    using inv by (simp add: flight_inv_def kernel_ok_def)
  have "set (cport_out_urb (es1 k)) \<subseteq> set fl"
  proof
    fix u assume "u \<in> set (cport_out_urb (es1 k))"
    then obtain j where j: "j < NUM_CPORT_OUT_URB" "u = cport_out_urb (es1 k) ! j"
      using pool_index [OF pok] by blast
    then show "u \<in> set fl"
      using inv busy by (simp add: flight_inv_def)
  qed
  then have "card (set (cport_out_urb (es1 k))) \<le> card (set fl)"
    by (simp add: card_mono)
  moreover have "card (set (cport_out_urb (es1 k))) = NUM_CPORT_OUT_URB"
    using pok by (simp add: pool_ok_def distinct_card)
  moreover have "card (set fl) \<le> length fl"
    by (rule card_length)
  ultimately show False
    using cap by simp
qed

lemma flight_invI:
  assumes "kernel_ok k" and "distinct fl" and "set fl \<subseteq> set (cport_out_urb (es1 k))"
    and "\<And>j. j < NUM_CPORT_OUT_URB \<Longrightarrow>
           cport_out_urb_busy (es1 k) ! j \<longleftrightarrow> cport_out_urb (es1 k) ! j \<in> set fl"
  shows "flight_inv (k, fl)"
  unfolding flight_inv_def using assms by simp

lemma quiet_stepI:
  assumes "trace k' = trace k @ evs" and "filter is_alloc_urb evs = []"
  shows "\<exists>evs. trace k' = trace k @ evs \<and> filter is_alloc_urb evs = []"
  using assms by blast

lemma flight_inv_send:
  assumes inv: "flight_inv (k, fl)" and cap: "Suc (length fl) \<le> NUM_CPORT_OUT_URB"
  shows "flight_inv (step bad (Send c b n) (k, fl))
       \<and> (\<exists>evs. trace (fst (step bad (Send c b n) (k, fl))) = trace k @ evs
                \<and> filter is_alloc_urb evs = [])"
proof -
  have ok: "kernel_ok k" and pok: "pool_ok (es1 k)" and dist: "distinct fl"
    and sub: "set fl \<subseteq> set (cport_out_urb (es1 k))"
    and bf: "\<And>j. j < NUM_CPORT_OUT_URB \<Longrightarrow>
               cport_out_urb_busy (es1 k) ! j \<longleftrightarrow> cport_out_urb (es1 k) ! j \<in> set fl"
    using inv by (simp_all add: flight_inv_def kernel_ok_def)
  define k' where "k' = snd (buffer_send bad c b n k)"
  show ?thesis
  proof (cases rule: buffer_send_cases [where bad = bad and c = c and b = b and n = n and k = k])
    case (rejected msg)
    have st: "step bad (Send c b n) (k, fl) = (k', fl)"
      by (simp add: k'_def rejected)
    have e: "es1 k' = es1 k" "alloc_results k' = alloc_results k"
      "trace k' = trace k @ [Pr_err msg]"
      by (simp_all add: k'_def rejected)
    have ok': "kernel_ok k'"
      using ok by (simp add: kernel_ok_def e)
    have "flight_inv (k', fl)"
      using ok' dist sub bf by (intro flight_invI) (simp_all only: e)
    moreover have "\<exists>evs. trace k' = trace k @ evs \<and> filter is_alloc_urb evs = []"
      using e(3) by (rule quiet_stepI) simp
    ultimately show ?thesis
      by (simp only: st fst_conv) 
  next
    case (pooled j)
    define u where "u = cport_out_urb (es1 k) ! j"
    have j: "j < NUM_CPORT_OUT_URB" and free: "\<not> cport_out_urb_busy (es1 k) ! j"
      using first_free_SomeD [OF pooled(5)] by simp_all
    have notin: "u \<notin> set fl"
      using bf [OF j] free by (simp add: u_def)
    have umem: "u \<in> set (cport_out_urb (es1 k))"
      unfolding u_def using pok j by (rule pool_nth_mem)
    have len: "length (cport_out_urb_busy (es1 k)) = NUM_CPORT_OUT_URB"
      using pok by (simp add: pool_ok_def)
    show ?thesis
    proof (cases "next_submit k = 0")
      case False
      have st: "step bad (Send c b n) (k, fl) = (k', fl)"
        using False by (simp add: k'_def buffer_send_pooled [OF pooled(1-4) pok pooled(5)])
      have e: "es1 k' = es1 k" "alloc_results k' = alloc_results k"
        "trace k' = trace k @ [Usb_submit_urb u (next_submit k),
                               Pr_err ''error %d submitting URB'', Usb_free_urb 0]"
        using False
        by (simp_all add: k'_def u_def buffer_send_pooled [OF pooled(1-4) pok pooled(5)])
      have ok': "kernel_ok k'"
        using ok by (simp add: kernel_ok_def e)
      have "flight_inv (k', fl)"
        using ok' dist sub bf by (intro flight_invI) (simp_all only: e)
      moreover have "\<exists>evs. trace k' = trace k @ evs \<and> filter is_alloc_urb evs = []"
        using e(3) by (rule quiet_stepI) simp
      ultimately show ?thesis
        by (simp only: st fst_conv)
    next
      case True
      have st: "step bad (Send c b n) (k, fl) = (k', u # fl)"
        using True
        by (simp add: k'_def u_def buffer_send_pooled [OF pooled(1-4) pok pooled(5)]
              reveal_conceal)
      have e: "cport_out_urb (es1 k') = cport_out_urb (es1 k)"
        "cport_out_urb_busy (es1 k') = (cport_out_urb_busy (es1 k))[j := True]"
        "alloc_results k' = alloc_results k"
        "trace k' = trace k @ [Usb_submit_urb u 0]"
        using True
        by (simp_all add: k'_def u_def buffer_send_pooled [OF pooled(1-4) pok pooled(5)])
      have ok': "kernel_ok k'"
        using ok by (rule kernel_ok_busy) (simp_all add: e)
      have bf': "cport_out_urb_busy (es1 k') ! i \<longleftrightarrow> cport_out_urb (es1 k') ! i \<in> set (u # fl)"
        if "i < NUM_CPORT_OUT_URB" for i
      proof (cases "i = j")
        case True
        then show ?thesis using j len by (simp add: e u_def)
      next
        case False
        then have "cport_out_urb (es1 k) ! i \<noteq> u"
          using pool_nth_eq [OF pok that j] by (simp add: u_def)
        then show ?thesis
          using bf [OF that] False by (simp add: e)
      qed
      have d': "distinct (u # fl)"
        using dist notin by simp
      have s': "set (u # fl) \<subseteq> set (cport_out_urb (es1 k'))"
        using sub umem by (simp add: e)
      have "flight_inv (k', u # fl)"
        using ok' d' s' bf' by (rule flight_invI)
      moreover have "\<exists>evs. trace k' = trace k @ evs \<and> filter is_alloc_urb evs = []"
        using e(4) by (rule quiet_stepI) simp
      ultimately show ?thesis
        by (simp only: st fst_conv)
    qed
  next
    case dynamic
    then show ?thesis
      using flight_inv_has_free [OF inv cap] by simp
  qed
qed

lemma flight_inv_complete:
  assumes inv: "flight_inv (k, fl)"
  shows "flight_inv (step bad (Complete u st) (k, fl))
       \<and> (\<exists>evs. trace (fst (step bad (Complete u st) (k, fl))) = trace k @ evs
                \<and> filter is_alloc_urb evs = [])"
proof (cases "u \<in> set fl")
  case False
  then show ?thesis using inv by simp
next
  case True
  have ok: "kernel_ok k" and pok: "pool_ok (es1 k)" and dist: "distinct fl"
    and sub: "set fl \<subseteq> set (cport_out_urb (es1 k))"
    and bf: "\<And>j. j < NUM_CPORT_OUT_URB \<Longrightarrow>
               cport_out_urb_busy (es1 k) ! j \<longleftrightarrow> cport_out_urb (es1 k) ! j \<in> set fl"
    using inv by (simp_all add: flight_inv_def kernel_ok_def)
  have "u \<in> set (cport_out_urb (es1 k))"
    using True sub by blast
  then obtain j where j: "j < NUM_CPORT_OUT_URB" and u: "cport_out_urb (es1 k) ! j = u"
    using pool_index [OF pok, of u] by metis
  define k1 where "k1 = k\<lparr>urbs := (urbs k)(u := (urbs k u)\<lparr>status := st\<rparr>)\<rparr>"
  define k2 where "k2 = emit (Greybus_data_sent (transfer_buffer (urbs k1 u) + 1)
                     (fst (check_urb_status u k1))) (snd (check_urb_status u k1))"
  define k' where "k' = cport_out_callback u k1"
  define logs where "logs =
       (if status (urbs k1 u) = - EOVERFLOW then [Dev_err ''%s: overflow actual length is %d'']
        else if status (urbs k1 u) = 0 \<or> device_gone (status (urbs k1 u)) then []
        else [Dev_err ''%s: unknown status %d''])"
  have cb: "k' = free_urb u k2"
    by (simp add: k'_def k2_def cport_out_callback_def split_beta Let_def)
  have e2: "es1 k2 = es1 k" "alloc_results k2 = alloc_results k" "trace k2 = trace k @ logs
       @ [Greybus_data_sent (transfer_buffer (urbs k1 u) + 1) (fst (check_urb_status u k1))]"
    by (simp_all add: k2_def k1_def check_urb_status_trace logs_def)
  have pok2: "pool_ok (es1 k2)"
    using pok by (simp add: e2)
  have fu: "k' = emit (Usb_free_urb 0)
      (k2\<lparr>es1 := (es1 k)\<lparr>cport_out_urb_busy := (cport_out_urb_busy (es1 k))[j := False]\<rparr>\<rparr>)"
    unfolding cb using free_urb_pooled [OF pok2 j] u by (simp add: e2)
  have e: "es1 k' = (es1 k)\<lparr>cport_out_urb_busy := (cport_out_urb_busy (es1 k))[j := False]\<rparr>"
    "alloc_results k' = alloc_results k"
    "trace k' = trace k @ (logs
       @ [Greybus_data_sent (transfer_buffer (urbs k1 u) + 1) (fst (check_urb_status u k1)),
          Usb_free_urb 0])"
    unfolding fu by (simp_all add: e2)
  have st: "step bad (Complete u st) (k, fl) = (k', remove1 u fl)"
    using True by (simp add: k'_def k1_def)
  have ok': "kernel_ok k'"
    using ok by (rule kernel_ok_busy) (simp_all add: e)
  have len: "length (cport_out_urb_busy (es1 k)) = NUM_CPORT_OUT_URB"
    using pok by (simp add: pool_ok_def)
  have bf': "cport_out_urb_busy (es1 k') ! i \<longleftrightarrow> cport_out_urb (es1 k') ! i \<in> set (remove1 u fl)"
    if "i < NUM_CPORT_OUT_URB" for i
  proof (cases "i = j")
    case True
    then show ?thesis using j len dist u by (simp add: e)
  next
    case False
    then have "cport_out_urb (es1 k) ! i \<noteq> u"
      using pool_nth_eq [OF pok that j] u by simp
    then show ?thesis
      using bf [OF that] False dist by (simp add: e)
  qed
  have sub': "set (remove1 u fl) \<subseteq> set (cport_out_urb (es1 k'))"
    using sub set_remove1_subset [of u fl] by (auto simp: e)
  have "filter is_alloc_urb (logs
       @ [Greybus_data_sent (transfer_buffer (urbs k1 u) + 1) (fst (check_urb_status u k1)),
          Usb_free_urb 0]) = []"
    by (simp add: logs_def)
  then have "\<exists>evs. trace k' = trace k @ evs \<and> filter is_alloc_urb evs = []"
    using e(3) by blast
  then show ?thesis
    unfolding st using ok' dist sub' bf' by (simp add: flight_inv_def)
qed

lemma flight_inv_run:
  assumes "flight_inv s" and "within_capacity bad xs s"
  shows "flight_inv (run bad xs s)
       \<and> (\<exists>evs. trace (fst (run bad xs s)) = trace (fst s) @ evs
                \<and> filter is_alloc_urb evs = [])"
  using assms
proof (induction xs arbitrary: s)
  case Nil
  then show ?case by simp
next
  case (Cons x xs)
  obtain k fl where s: "s = (k, fl)"
    by (cases s)
  have one: "flight_inv (step bad x s)
       \<and> (\<exists>evs. trace (fst (step bad x s)) = trace (fst s) @ evs
                \<and> filter is_alloc_urb evs = [])"
  proof (cases x)
    case (Send c b n)
    then show ?thesis
      using Cons.prems flight_inv_send [of k fl bad c b n] s by simp
  next
    case (Complete u st)
    then show ?thesis
      using Cons.prems flight_inv_complete [of k fl bad u st] s by simp
  qed
  have cap: "within_capacity bad xs (step bad x s)"
    using Cons.prems(2) by (cases x) simp_all
  obtain e1 where e1: "trace (fst (step bad x s)) = trace (fst s) @ e1"
      "filter is_alloc_urb e1 = []"
    using one by blast
  obtain e2 where e2: "trace (fst (run bad xs (step bad x s))) = trace (fst (step bad x s)) @ e2"
      "filter is_alloc_urb e2 = []"
    using Cons.IH [of "step bad x s"] one cap by blast
  have "trace (fst (run bad (x # xs) s)) = trace (fst s) @ (e1 @ e2)"
    using e1 e2 by simp
  moreover have "filter is_alloc_urb (e1 @ e2) = []"
    using e1 e2 by simp
  ultimately have "\<exists>evs. trace (fst (run bad (x # xs) s)) = trace (fst s) @ evs
                \<and> filter is_alloc_urb evs = []"
    by blast
  then show ?case
    using Cons.IH [of "step bad x s"] one cap by simp
qed

lemma flight_inv_idle:
  assumes "kernel_ok k" and "pool_idle (es1 k)"
  shows "flight_inv (k, [])"
  using assms by (simp add: flight_inv_def pool_idle_def)

lemma next_free_urb_dichotomy:
  assumes pok: "pool_ok (es1 k)"
  shows "some_slot_free (es1 k) \<longleftrightarrow>
           fst (next_free_urb k) \<in> set (cport_out_urb (es1 k))
           \<and> filter is_alloc_urb (new_events k (snd (next_free_urb k))) = []"
    and "\<not> some_slot_free (es1 k) \<Longrightarrow>
           fst (next_free_urb k) = fst (next_alloc k)
           \<and> new_events k (snd (next_free_urb k)) =
               [Dev_err ''No free CPort OUT urbs, having to dynamically allocate one!'',
                Usb_alloc_urb (fst (next_alloc k))]"
proof -
  show "some_slot_free (es1 k) \<longleftrightarrow>
           fst (next_free_urb k) \<in> set (cport_out_urb (es1 k))
           \<and> filter is_alloc_urb (new_events k (snd (next_free_urb k))) = []"
  proof (cases "first_free (es1 k)")
    case None
    then show ?thesis
      by (simp add: some_slot_free_iff next_free_urb_dynamic usb_alloc_urb_eq new_events_def)
  next
    case (Some j)
    have "j < NUM_CPORT_OUT_URB"
      using first_free_SomeD(1) [OF Some] .
    then have "cport_out_urb (es1 k) ! j \<in> set (cport_out_urb (es1 k))"
      using pok by (simp add: pool_nth_mem)
    then show ?thesis
      using Some
      by (simp add: some_slot_free_iff next_free_urb_pooled [OF pok Some] new_events_def)
  qed
  show "fst (next_free_urb k) = fst (next_alloc k)
           \<and> new_events k (snd (next_free_urb k)) =
               [Dev_err ''No free CPort OUT urbs, having to dynamically allocate one!'',
                Usb_alloc_urb (fst (next_alloc k))]"
    if "\<not> some_slot_free (es1 k)"
    using that
    by (simp add: some_slot_free_iff next_free_urb_dynamic usb_alloc_urb_eq new_events_def)
qed

lemma enomem_before_submit:
  assumes ok: "kernel_ok k"
    and run: "buffer_send bad c b n k = (Inl (- ENOMEM), k')"
    and nosub: "filter is_submit (new_events k k') = []"
  shows "\<not> some_slot_free (es1 k) \<and> fst (next_alloc k) = 0
       \<and> new_events k k' =
           [Dev_err ''No free CPort OUT urbs, having to dynamically allocate one!'',
            Usb_alloc_urb 0]"
proof -
  have pok: "pool_ok (es1 k)" and len: "length (cport_out_urb (es1 k)) = NUM_CPORT_OUT_URB"
    using ok by (simp_all add: kernel_ok_def pool_ok_def)
  show ?thesis
  proof (cases rule: buffer_send_cases [where bad = bad and c = c and b = b and n = n and k = k])
    case (rejected msg)
    then show ?thesis
      using run by (simp add: errno_defs)
  next
    case (pooled j)
    show ?thesis
      using run nosub unfolding buffer_send_pooled [OF pooled(1-4) pok pooled(5)]
      by (auto simp: new_events_def split: if_splits)
  next
    case dynamic
    show ?thesis
      using run nosub dynamic(5)
      unfolding buffer_send_dynamic [OF dynamic(1-4) len dynamic(5) kernel_ok_fresh [OF ok]]
      by (auto simp: new_events_def some_slot_free_iff split: if_splits)
  qed
qed

lemma enomem_when_allocation_fails:
  assumes ok: "kernel_ok k"
    and acc: "b \<noteq> 0" "n \<le> INT_MAX" "c \<noteq> bad" "c \<le> U8_MAX"
    and full: "\<not> some_slot_free (es1 k)" and null: "fst (next_alloc k) = 0"
  shows "fst (buffer_send bad c b n k) = Inl (- ENOMEM)"
proof -
  have len: "length (cport_out_urb (es1 k)) = NUM_CPORT_OUT_URB"
    using ok by (simp add: kernel_ok_def pool_ok_def)
  have ff: "first_free (es1 k) = None"
    using full by (simp add: some_slot_free_iff)
  show ?thesis
    using null
    unfolding buffer_send_dynamic [OF acc len ff kernel_ok_fresh [OF ok]]
    by simp
qed

text \<open>
  Claim C2, amended. In a well-formed state, \<open>next_free_urb\<close> returns a pool urb and
  allocates nothing exactly if some slot is free at the scan; with no slot free it logs
  and returns what \<open>usb_alloc_urb\<close> returns. \<open>buffer_send\<close> returns \<open>-ENOMEM\<close>
  without having called \<open>usb_submit_urb\<close> only if no slot was free and that allocation
  returned null, and it does return \<open>-ENOMEM\<close> then. In a run of sends and
  completions that starts with an idle pool and in which every send finds fewer than
  eight sends in flight, \<open>usb_alloc_urb\<close> is never called.
\<close>

theorem pool_acquisition_dichotomy:
  "(pool_ok (es1 k) \<longrightarrow>
      (some_slot_free (es1 k) \<longleftrightarrow>
         fst (next_free_urb k) \<in> set (cport_out_urb (es1 k))
         \<and> filter is_alloc_urb (new_events k (snd (next_free_urb k))) = []))
   \<and> (pool_ok (es1 k) \<and> \<not> some_slot_free (es1 k) \<longrightarrow>
        fst (next_free_urb k) = fst (next_alloc k)
        \<and> new_events k (snd (next_free_urb k)) =
            [Dev_err ''No free CPort OUT urbs, having to dynamically allocate one!'',
             Usb_alloc_urb (fst (next_alloc k))])
   \<and> (kernel_ok k \<and> buffer_send bad c b n k = (Inl (- ENOMEM), k')
        \<and> filter is_submit (new_events k k') = [] \<longrightarrow>
        \<not> some_slot_free (es1 k) \<and> fst (next_alloc k) = 0
        \<and> new_events k k' =
            [Dev_err ''No free CPort OUT urbs, having to dynamically allocate one!'',
             Usb_alloc_urb 0])
   \<and> (kernel_ok k \<and> b \<noteq> 0 \<and> n \<le> INT_MAX \<and> c \<noteq> bad \<and> c \<le> U8_MAX
        \<and> \<not> some_slot_free (es1 k) \<and> fst (next_alloc k) = 0 \<longrightarrow>
        fst (buffer_send bad c b n k) = Inl (- ENOMEM))
   \<and> (kernel_ok k \<and> pool_idle (es1 k) \<and> within_capacity bad xs (k, []) \<longrightarrow>
        filter is_alloc_urb (new_events k (fst (run bad xs (k, [])))) = [])"
proof (intro conjI impI)
  assume "pool_ok (es1 k)"
  then show "some_slot_free (es1 k) \<longleftrightarrow>
         fst (next_free_urb k) \<in> set (cport_out_urb (es1 k))
         \<and> filter is_alloc_urb (new_events k (snd (next_free_urb k))) = []"
    by (rule next_free_urb_dichotomy(1))
next
  assume "pool_ok (es1 k) \<and> \<not> some_slot_free (es1 k)"
  then have a: "pool_ok (es1 k)" "\<not> some_slot_free (es1 k)"
    by simp_all
  show "fst (next_free_urb k) = fst (next_alloc k)"
    using next_free_urb_dichotomy(2) [OF a] by simp
  show "new_events k (snd (next_free_urb k)) =
            [Dev_err ''No free CPort OUT urbs, having to dynamically allocate one!'',
             Usb_alloc_urb (fst (next_alloc k))]"
    using next_free_urb_dichotomy(2) [OF a] by simp
next
  assume "kernel_ok k \<and> buffer_send bad c b n k = (Inl (- ENOMEM), k')
        \<and> filter is_submit (new_events k k') = []"
  then have a: "kernel_ok k" "buffer_send bad c b n k = (Inl (- ENOMEM), k')"
      "filter is_submit (new_events k k') = []"
    by simp_all
  show "\<not> some_slot_free (es1 k)"
    using enomem_before_submit [OF a] by simp
  show "fst (next_alloc k) = 0"
    using enomem_before_submit [OF a] by simp
  show "new_events k k' =
            [Dev_err ''No free CPort OUT urbs, having to dynamically allocate one!'',
             Usb_alloc_urb 0]"
    using enomem_before_submit [OF a] by simp
next
  assume "kernel_ok k \<and> b \<noteq> 0 \<and> n \<le> INT_MAX \<and> c \<noteq> bad \<and> c \<le> U8_MAX
        \<and> \<not> some_slot_free (es1 k) \<and> fst (next_alloc k) = 0"
  then show "fst (buffer_send bad c b n k) = Inl (- ENOMEM)"
    using enomem_when_allocation_fails [of k b n c bad] by simp
next
  assume "kernel_ok k \<and> pool_idle (es1 k) \<and> within_capacity bad xs (k, [])"
  then have a: "kernel_ok k" "pool_idle (es1 k)" "within_capacity bad xs (k, [])"
    by simp_all
  obtain evs where "trace (fst (run bad xs (k, []))) = trace k @ evs"
      "filter is_alloc_urb evs = []"
    using flight_inv_run [OF flight_inv_idle [OF a(1,2)] a(3)] by auto
  then show "filter is_alloc_urb (new_events k (fst (run bad xs (k, [])))) = []"
    by (simp add: new_events_def)
qed

lemma demo_run:
  "within_capacity 0xffff [Send 5 0x20000 2, Send 6 0x20000 2, Complete 0x4000 0]
     (demo_kernel, [])"
  "snd (run 0xffff [Send 5 0x20000 2, Send 6 0x20000 2, Complete 0x4000 0] (demo_kernel, []))
     = [0x4100]"
  "trace (fst (run 0xffff [Send 5 0x20000 2, Send 6 0x20000 2, Complete 0x4000 0]
                 (demo_kernel, [])))
     = [Usb_submit_urb 0x4000 0, Usb_submit_urb 0x4100 0,
        Greybus_data_sent 0x20000 0, Usb_free_urb 0]"
  by (simp_all add: buffer_send_def next_free_urb_def next_free_scan.simps
        usb_fill_bulk_urb_def usb_submit_urb_def emit_def conceal_urb_def reveal_urb_def
        cport_out_callback_def check_urb_status_def free_urb_def free_urb_scan.simps
        usb_free_urb_def demo_kernel_def demo_dev_def urb0_def
        NUM_CPORT_OUT_URB_def INT_MAX_def U8_MAX_def Let_def)

lemma demo_full_facts:
  "kernel_ok demo_full" "\<not> some_slot_free (es1 demo_full)" "fst (next_alloc demo_full) = 0"
  "pool_ok (es1 demo_full)"
  by (simp_all add: demo_full_def demo_kernel_def demo_dev_def kernel_ok_def pool_ok_def
        aligned_ptr_def some_slot_free_def next_alloc_def NUM_CPORT_OUT_URB_def upt_conv_Cons)

lemma demo_full_send:
  "buffer_send 0xffff 5 0x20000 2 demo_full =
     (Inl (- ENOMEM),
      demo_full
        \<lparr>mem := (mem demo_full)(0x1ffff := 5),
         alloc_results := [],
         trace := [Dev_err ''No free CPort OUT urbs, having to dynamically allocate one!'',
                   Usb_alloc_urb 0]\<rparr>)"
proof -
  have len: "length (cport_out_urb (es1 demo_full)) = NUM_CPORT_OUT_URB"
    using demo_full_facts(4) by (simp add: pool_ok_def)
  have ff: "first_free (es1 demo_full) = None"
    using demo_full_facts(2) by (simp add: some_slot_free_iff)
  have tr: "trace demo_full = []" "alloc_results demo_full = []"
    by (simp_all add: demo_full_def demo_kernel_def)
  show ?thesis
    unfolding buffer_send_dynamic [OF demo_accepted len ff kernel_ok_fresh [OF demo_full_facts(1)]]
    by (simp add: demo_full_facts(3) tr)
qed

theorem pool_acquisition_dichotomy_witness:
  "pool_ok (es1 demo_kernel) \<and> some_slot_free (es1 demo_kernel)
   \<and> fst (next_free_urb demo_kernel) \<in> set (cport_out_urb (es1 demo_kernel))
   \<and> filter is_alloc_urb (new_events demo_kernel (snd (next_free_urb demo_kernel))) = []
   \<and> kernel_ok demo_full \<and> \<not> some_slot_free (es1 demo_full)
   \<and> new_events demo_full (snd (next_free_urb demo_full)) =
        [Dev_err ''No free CPort OUT urbs, having to dynamically allocate one!'',
         Usb_alloc_urb 0]
   \<and> buffer_send 0xffff 5 0x20000 2 demo_full
       = (Inl (- ENOMEM), snd (buffer_send 0xffff 5 0x20000 2 demo_full))
   \<and> filter is_submit
        (new_events demo_full (snd (buffer_send 0xffff 5 0x20000 2 demo_full))) = []
   \<and> new_events demo_full (snd (buffer_send 0xffff 5 0x20000 2 demo_full)) =
        [Dev_err ''No free CPort OUT urbs, having to dynamically allocate one!'',
         Usb_alloc_urb 0]
   \<and> kernel_ok demo_kernel \<and> pool_idle (es1 demo_kernel)
   \<and> within_capacity 0xffff [Send 5 0x20000 2, Send 6 0x20000 2, Complete 0x4000 0]
        (demo_kernel, [])
   \<and> filter is_alloc_urb
        (new_events demo_kernel
           (fst (run 0xffff [Send 5 0x20000 2, Send 6 0x20000 2, Complete 0x4000 0]
                   (demo_kernel, [])))) = []"
proof -
  let ?rf = "buffer_send 0xffff 5 0x20000 2 demo_full"
  have ok: "kernel_ok demo_kernel"
    by (rule demo_kernel_ok) (simp_all add: demo_kernel_def)
  have pok: "pool_ok (es1 demo_kernel)"
    using demo_dev_pool_ok by (simp add: demo_kernel_def)
  have free: "some_slot_free (es1 demo_kernel)"
    using demo_dev_first_free by (simp add: some_slot_free_iff demo_kernel_def)
  have idle: "pool_idle (es1 demo_kernel)"
    by (simp add: pool_idle_def demo_kernel_def demo_dev_def NUM_CPORT_OUT_URB_def
          numeral_eq_Suc)
  have runf: "?rf = (Inl (- ENOMEM), snd ?rf)"
    by (simp add: demo_full_send)
  have nosub: "filter is_submit (new_events demo_full (snd ?rf)) = []"
    by (simp add: demo_full_send new_events_def) (simp add: demo_full_def demo_kernel_def)
  show ?thesis
    using pool_acquisition_dichotomy [of demo_kernel "0xffff" 5 "0x20000" 2 demo_kernel
        "[Send 5 0x20000 2, Send 6 0x20000 2, Complete 0x4000 0]"]
      pool_acquisition_dichotomy [of demo_full "0xffff" 5 "0x20000" 2 "snd ?rf" "[]"]
      ok pok free idle demo_run(1) demo_full_facts demo_accepted runf nosub
    by simp
qed

theorem enomem_from_failed_submission:
  "some_slot_free (es1 (demo_kernel\<lparr>submit_results := [- ENOMEM]\<rparr>))
   \<and> fst (buffer_send 0xffff 5 0x20000 2 (demo_kernel\<lparr>submit_results := [- ENOMEM]\<rparr>))
       = Inl (- ENOMEM)
   \<and> filter is_alloc_urb
        (new_events (demo_kernel\<lparr>submit_results := [- ENOMEM]\<rparr>)
           (snd (buffer_send 0xffff 5 0x20000 2 (demo_kernel\<lparr>submit_results := [- ENOMEM]\<rparr>))))
       = []"
proof -
  let ?k = "demo_kernel\<lparr>submit_results := [- ENOMEM]\<rparr>"
  have d: "es1 ?k = demo_dev" "next_submit ?k = - ENOMEM"
    by (simp_all add: demo_kernel_def next_submit_def)
  have ne: "- ENOMEM \<noteq> 0"
    by (simp add: ENOMEM_def)
  have free: "some_slot_free (es1 ?k)"
    using demo_dev_first_free by (simp add: some_slot_free_iff d)
  show ?thesis
    using free ne by (simp add: demo_send_pooled [OF d(1)] d(2) new_events_def)
qed

section \<open>Attach\<close>

lemma endpoint_kinds_apart:
  "usb_endpoint_is_int_in e \<Longrightarrow> \<not> usb_endpoint_is_bulk_in e"
  "usb_endpoint_is_int_in e \<Longrightarrow> \<not> usb_endpoint_is_bulk_out e"
  "usb_endpoint_is_bulk_in e \<Longrightarrow> \<not> usb_endpoint_is_bulk_out e"
  by (auto simp: usb_endpoint_is_int_in_def usb_endpoint_is_bulk_in_def
        usb_endpoint_is_bulk_out_def)

lemma find_endpoints_found:
  "int_in_found (fst (find_endpoints eps (l, k))) \<longleftrightarrow>
     int_in_found l \<or> list_ex usb_endpoint_is_int_in eps"
  "bulk_in_found (fst (find_endpoints eps (l, k))) \<longleftrightarrow>
     bulk_in_found l \<or> list_ex usb_endpoint_is_bulk_in eps"
  "bulk_out_found (fst (find_endpoints eps (l, k))) \<longleftrightarrow>
     bulk_out_found l \<or> list_ex usb_endpoint_is_bulk_out eps"
  by (induction eps arbitrary: l k; auto simp: endpoint_kinds_apart)+

lemma find_endpoints_frame:
  "trace (snd (find_endpoints eps (l, k))) =
     trace k @ replicate (length (filter unknown_endpoint eps))
                 (Dev_err ''Unknown endpoint type found, address %x'')"
  "intfdata (snd (find_endpoints eps (l, k))) = intfdata k"
  "alloc_results (snd (find_endpoints eps (l, k))) = alloc_results k"
  "submit_results (snd (find_endpoints eps (l, k))) = submit_results k"
  "svc_urb (es1 (snd (find_endpoints eps (l, k)))) = svc_urb (es1 k)"
  "svc_buffer (es1 (snd (find_endpoints eps (l, k)))) = svc_buffer (es1 k)"
  "cport_in_urb (es1 (snd (find_endpoints eps (l, k)))) = cport_in_urb (es1 k)"
  "cport_out_urb (es1 (snd (find_endpoints eps (l, k)))) = cport_out_urb (es1 k)"
  by (induction eps arbitrary: l k;
      simp add: unknown_endpoint_def replicate_app_Cons_same)+

lemma ap_probe_no_hd:
  "ap_probe False ep0 sz pg eps k =
     (- ENOMEM, emit Usb_put_dev (emit (Greybus_create_hd False) (emit Usb_get_dev k)))"
  by (simp add: ap_probe_def)

lemma ap_probe_missing:
  assumes "\<not> (list_ex usb_endpoint_is_int_in eps \<and> list_ex usb_endpoint_is_bulk_in eps
              \<and> list_ex usb_endpoint_is_bulk_out eps)"
  shows "ap_probe True ep0 sz pg eps k =
     (- ENOMEM,
      ap_disconnect
        (emit (Dev_err ''Not enough endpoints found in device, aborting!'')
           (snd (find_endpoints eps
                   (\<lparr>int_in_found = False, bulk_in_found = False,
                     bulk_out_found = False, svc_interval = 0\<rparr>,
                    (emit (Usb_set_intfdata True)
                       ((emit (Greybus_create_hd True) (emit Usb_get_dev k))
                          \<lparr>intfdata := True\<rparr>))
                      \<lparr>es1 := (es1 k)\<lparr>control_endpoint := ep0\<rparr>\<rparr>)))))"
  using assms find_endpoints_found
  by (auto simp: ap_probe_def Let_def split_beta)

lemma ap_probe_success_found:
  assumes "fst (ap_probe hd_ok ep0 sz pg eps k) = 0"
  shows "hd_ok \<and> list_ex usb_endpoint_is_int_in eps \<and> list_ex usb_endpoint_is_bulk_in eps
         \<and> list_ex usb_endpoint_is_bulk_out eps"
proof (rule ccontr)
  assume "\<not> ?thesis"
  then consider "\<not> hd_ok"
    | "hd_ok" "\<not> (list_ex usb_endpoint_is_int_in eps \<and> list_ex usb_endpoint_is_bulk_in eps
              \<and> list_ex usb_endpoint_is_bulk_out eps)"
    by blast
  then show False
  proof cases
    case 1
    then show False
      using assms by (simp add: ap_probe_no_hd ENOMEM_def)
  next
    case 2
    then show False
      using assms ap_probe_missing [OF 2(2), of ep0 sz pg k] by (simp add: ENOMEM_def)
  qed
qed

lemma ap_disconnect_nothing_allocated:
  assumes "intfdata k" and "cport_out_urb (es1 k) ! 0 = 0" and "cport_in_urb (es1 k) ! 0 = 0"
    and "svc_urb (es1 k) = 0" and "svc_buffer (es1 k) = 0"
  shows "trace (ap_disconnect k) =
           trace k @ [Usb_kill_urb 0, Usb_free_urb 0, Kfree 0, Usb_set_intfdata False,
                      Greybus_remove_hd, Usb_put_dev]"
    and "intfdata (ap_disconnect k) = False"
    and "alloc_results (ap_disconnect k) = alloc_results k"
proof -
  have o: "disconnect_out_loop 0 k = k"
    using assms(2) by (subst disconnect_out_loop.simps) (simp add: NUM_CPORT_OUT_URB_def)
  have i: "disconnect_in_loop 0 k = k"
    using assms(3) by (subst disconnect_in_loop.simps) (simp add: NUM_CPORT_IN_URB_def)
  show "trace (ap_disconnect k) =
           trace k @ [Usb_kill_urb 0, Usb_free_urb 0, Kfree 0, Usb_set_intfdata False,
                      Greybus_remove_hd, Usb_put_dev]"
    and "intfdata (ap_disconnect k) = False"
    and "alloc_results (ap_disconnect k) = alloc_results k"
    using assms(1,4,5)
    by (simp_all add: ap_disconnect_def o i Let_def usb_kill_urb_def usb_free_urb_def kfree_def)
qed

lemma ap_probe_missing_trace:
  assumes miss: "\<not> (list_ex usb_endpoint_is_int_in eps \<and> list_ex usb_endpoint_is_bulk_in eps
              \<and> list_ex usb_endpoint_is_bulk_out eps)"
    and zero: "es1 k = es1_zeroed"
  shows "fst (ap_probe True ep0 sz pg eps k) = - ENOMEM"
    and "trace (snd (ap_probe True ep0 sz pg eps k)) =
           trace k @ [Usb_get_dev, Greybus_create_hd True, Usb_set_intfdata True]
             @ replicate (length (filter unknown_endpoint eps))
                 (Dev_err ''Unknown endpoint type found, address %x'')
             @ [Dev_err ''Not enough endpoints found in device, aborting!'',
                Usb_kill_urb 0, Usb_free_urb 0, Kfree 0, Usb_set_intfdata False,
                Greybus_remove_hd, Usb_put_dev]"
    and "intfdata (snd (ap_probe True ep0 sz pg eps k)) = False"
    and "alloc_results (snd (ap_probe True ep0 sz pg eps k)) = alloc_results k"
proof -
  let ?k3 = "snd (find_endpoints eps
                   (\<lparr>int_in_found = False, bulk_in_found = False,
                     bulk_out_found = False, svc_interval = 0\<rparr>,
                    (emit (Usb_set_intfdata True)
                       ((emit (Greybus_create_hd True) (emit Usb_get_dev k))
                          \<lparr>intfdata := True\<rparr>))
                      \<lparr>es1 := (es1 k)\<lparr>control_endpoint := ep0\<rparr>\<rparr>))"
  let ?k4 = "emit (Dev_err ''Not enough endpoints found in device, aborting!'') ?k3"
  have pre: "intfdata ?k4" "cport_out_urb (es1 ?k4) ! 0 = 0" "cport_in_urb (es1 ?k4) ! 0 = 0"
    "svc_urb (es1 ?k4) = 0" "svc_buffer (es1 ?k4) = 0"
    by (simp_all add: find_endpoints_frame zero es1_zeroed_def)
  show "fst (ap_probe True ep0 sz pg eps k) = - ENOMEM"
    by (simp add: ap_probe_missing [OF miss])
  show "trace (snd (ap_probe True ep0 sz pg eps k)) =
           trace k @ [Usb_get_dev, Greybus_create_hd True, Usb_set_intfdata True]
             @ replicate (length (filter unknown_endpoint eps))
                 (Dev_err ''Unknown endpoint type found, address %x'')
             @ [Dev_err ''Not enough endpoints found in device, aborting!'',
                Usb_kill_urb 0, Usb_free_urb 0, Kfree 0, Usb_set_intfdata False,
                Greybus_remove_hd, Usb_put_dev]"
    unfolding ap_probe_missing [OF miss] snd_conv
      ap_disconnect_nothing_allocated(1) [OF pre]
    by (simp add: find_endpoints_frame)
  show "intfdata (snd (ap_probe True ep0 sz pg eps k)) = False"
    unfolding ap_probe_missing [OF miss] snd_conv
    by (rule ap_disconnect_nothing_allocated(2) [OF pre])
  show "alloc_results (snd (ap_probe True ep0 sz pg eps k)) = alloc_results k"
    unfolding ap_probe_missing [OF miss] snd_conv
      ap_disconnect_nothing_allocated(3) [OF pre]
    by (simp add: find_endpoints_frame)
qed

lemma outstanding_logs:
  "outstanding held (replicate m (Dev_err x) @ es) = outstanding held es"
  by (induction m) simp_all

lemma demo_attach:
  "fst (ap_probe True 0 0x10010 4096 demo_endpoints demo_boot) = 0"
  "es1 (snd (ap_probe True 0 0x10010 4096 demo_endpoints demo_boot))
     = demo_dev\<lparr>cport_in_endpoint := 0x84\<rparr>"
  "alloc_results (snd (ap_probe True 0 0x10010 4096 demo_endpoints demo_boot)) = []"
  by (simp_all add: ap_probe_def demo_endpoints_def demo_boot_def es1_zeroed_def demo_dev_def
        usb_endpoint_is_int_in_def usb_endpoint_is_bulk_in_def usb_endpoint_is_bulk_out_def
        kmalloc_def usb_alloc_urb_def next_alloc_def usb_submit_urb_def usb_fill_int_urb_def
        usb_fill_bulk_urb_def emit_def probe_in_loop.simps probe_out_loop.simps
        NUM_CPORT_IN_URB_def NUM_CPORT_OUT_URB_def Let_def)

text \<open>
  Claim C10, amended. \<open>ap_probe\<close> returns 0 only if \<open>greybus_create_hd\<close> gave a host
  device and the interface has at least one interrupt-in, at least one bulk-in and at
  least one bulk-out endpoint (the control endpoint is endpoint 0 of the device and is
  not searched for). When one of the three kinds is missing, \<open>ap_probe\<close> logs, runs
  \<open>ap_disconnect\<close> and returns \<open>-ENOMEM\<close>: nothing was allocated yet, the interface
  data is cleared, the host device is removed and the device reference is dropped, so
  that nothing stays allocated.
\<close>

theorem attach_endpoint_discovery:
  "(fst (ap_probe hd_ok ep0 sz pg eps k) = 0 \<longrightarrow>
      hd_ok \<and> list_ex usb_endpoint_is_int_in eps \<and> list_ex usb_endpoint_is_bulk_in eps
      \<and> list_ex usb_endpoint_is_bulk_out eps)
   \<and> (\<not> (list_ex usb_endpoint_is_int_in eps \<and> list_ex usb_endpoint_is_bulk_in eps
           \<and> list_ex usb_endpoint_is_bulk_out eps)
        \<and> es1 k = es1_zeroed \<longrightarrow>
        fst (ap_probe True ep0 sz pg eps k) = - ENOMEM
        \<and> new_events k (snd (ap_probe True ep0 sz pg eps k)) =
            [Usb_get_dev, Greybus_create_hd True, Usb_set_intfdata True]
            @ replicate (length (filter unknown_endpoint eps))
                (Dev_err ''Unknown endpoint type found, address %x'')
            @ [Dev_err ''Not enough endpoints found in device, aborting!'',
               Usb_kill_urb 0, Usb_free_urb 0, Kfree 0, Usb_set_intfdata False,
               Greybus_remove_hd, Usb_put_dev]
        \<and> outstanding [] (new_events k (snd (ap_probe True ep0 sz pg eps k))) = []
        \<and> intfdata (snd (ap_probe True ep0 sz pg eps k)) = False
        \<and> alloc_results (snd (ap_probe True ep0 sz pg eps k)) = alloc_results k)"
proof (intro conjI impI)
  assume "fst (ap_probe hd_ok ep0 sz pg eps k) = 0"
  then have found: "hd_ok \<and> list_ex usb_endpoint_is_int_in eps
      \<and> list_ex usb_endpoint_is_bulk_in eps \<and> list_ex usb_endpoint_is_bulk_out eps"
    by (rule ap_probe_success_found)
  show "hd_ok" using found by simp
  show "list_ex usb_endpoint_is_int_in eps" using found by simp
  show "list_ex usb_endpoint_is_bulk_in eps" using found by simp
  show "list_ex usb_endpoint_is_bulk_out eps" using found by simp
next
  assume a: "\<not> (list_ex usb_endpoint_is_int_in eps \<and> list_ex usb_endpoint_is_bulk_in eps
           \<and> list_ex usb_endpoint_is_bulk_out eps)
        \<and> es1 k = es1_zeroed"
  then have miss: "\<not> (list_ex usb_endpoint_is_int_in eps \<and> list_ex usb_endpoint_is_bulk_in eps
           \<and> list_ex usb_endpoint_is_bulk_out eps)"
    and zero: "es1 k = es1_zeroed"
    by simp_all
  have ev: "new_events k (snd (ap_probe True ep0 sz pg eps k)) =
            [Usb_get_dev, Greybus_create_hd True, Usb_set_intfdata True]
            @ replicate (length (filter unknown_endpoint eps))
                (Dev_err ''Unknown endpoint type found, address %x'')
            @ [Dev_err ''Not enough endpoints found in device, aborting!'',
               Usb_kill_urb 0, Usb_free_urb 0, Kfree 0, Usb_set_intfdata False,
               Greybus_remove_hd, Usb_put_dev]"
    by (rule new_events_append [OF ap_probe_missing_trace(2) [OF miss zero]])
  show "fst (ap_probe True ep0 sz pg eps k) = - ENOMEM"
    by (rule ap_probe_missing_trace(1) [OF miss zero])
  show "new_events k (snd (ap_probe True ep0 sz pg eps k)) =
            [Usb_get_dev, Greybus_create_hd True, Usb_set_intfdata True]
            @ replicate (length (filter unknown_endpoint eps))
                (Dev_err ''Unknown endpoint type found, address %x'')
            @ [Dev_err ''Not enough endpoints found in device, aborting!'',
               Usb_kill_urb 0, Usb_free_urb 0, Kfree 0, Usb_set_intfdata False,
               Greybus_remove_hd, Usb_put_dev]"
    by (rule ev)
  show "outstanding [] (new_events k (snd (ap_probe True ep0 sz pg eps k))) = []"
    unfolding ev by (simp add: outstanding_logs)
  show "intfdata (snd (ap_probe True ep0 sz pg eps k)) = False"
    by (rule ap_probe_missing_trace(3) [OF miss zero])
  show "alloc_results (snd (ap_probe True ep0 sz pg eps k)) = alloc_results k"
    by (rule ap_probe_missing_trace(4) [OF miss zero])
qed

theorem attach_endpoint_discovery_witness:
  "fst (ap_probe True 0 0x10010 4096 demo_endpoints demo_boot) = 0
   \<and> list_ex usb_endpoint_is_int_in demo_endpoints
   \<and> list_ex usb_endpoint_is_bulk_in demo_endpoints
   \<and> list_ex usb_endpoint_is_bulk_out demo_endpoints
   \<and> \<not> list_ex usb_endpoint_is_int_in (tl demo_endpoints)
   \<and> es1 demo_boot = es1_zeroed
   \<and> fst (ap_probe True 0 0x10010 4096 (tl demo_endpoints) demo_boot) = - ENOMEM
   \<and> new_events demo_boot (snd (ap_probe True 0 0x10010 4096 (tl demo_endpoints) demo_boot)) =
        [Usb_get_dev, Greybus_create_hd True, Usb_set_intfdata True,
         Dev_err ''Not enough endpoints found in device, aborting!'',
         Usb_kill_urb 0, Usb_free_urb 0, Kfree 0, Usb_set_intfdata False,
         Greybus_remove_hd, Usb_put_dev]
   \<and> outstanding []
        (new_events demo_boot (snd (ap_probe True 0 0x10010 4096 (tl demo_endpoints) demo_boot)))
       = []"
proof -
  have miss: "\<not> list_ex usb_endpoint_is_int_in (tl demo_endpoints)"
    by (simp add: demo_endpoints_def usb_endpoint_is_int_in_def)
  have zero: "es1 demo_boot = es1_zeroed"
    by (simp add: demo_boot_def)
  have known: "filter unknown_endpoint (tl demo_endpoints) = []"
    by (simp add: demo_endpoints_def unknown_endpoint_def usb_endpoint_is_int_in_def
          usb_endpoint_is_bulk_in_def usb_endpoint_is_bulk_out_def)
  show ?thesis
    using attach_endpoint_discovery [of True 0 "0x10010" 4096 demo_endpoints demo_boot]
      attach_endpoint_discovery [of True 0 "0x10010" 4096 "tl demo_endpoints" demo_boot]
      demo_attach(1) miss zero known
    by simp
qed

theorem attach_accepts_two_bulk_in_endpoints:
  "fst (ap_probe True 0 0x10010 4096 demo_endpoints demo_boot) = 0
   \<and> length (filter usb_endpoint_is_bulk_in demo_endpoints) = 2
   \<and> es1 (snd (ap_probe True 0 0x10010 4096 demo_endpoints demo_boot))
       = demo_dev\<lparr>cport_in_endpoint := 0x84\<rparr>"
proof -
  have "length (filter usb_endpoint_is_bulk_in demo_endpoints) = 2"
    by (simp add: demo_endpoints_def usb_endpoint_is_bulk_in_def)
  then show ?thesis
    using demo_attach(1,2) by simp
qed

section \<open>Well-formedness is established and kept\<close>

text \<open>
  The well-formedness assumed of a state in the theorems above is what an attach that
  succeeds leaves behind, and the send path and its completion handler keep it.
\<close>

lemma free_urb_busy_length [simp]:
  "length (cport_out_urb_busy (es1 (free_urb u k))) = length (cport_out_urb_busy (es1 k))"
  by (simp add: free_urb_def free_urb_scan_find usb_free_urb_def split: option.splits)

lemma kernel_ok_free_urb:
  assumes "kernel_ok k"
  shows "kernel_ok (free_urb u k)"
  using assms by (rule kernel_ok_busy) (simp_all add: free_urb_frame)

lemma kernel_ok_buffer_send:
  assumes ok: "kernel_ok k"
  shows "kernel_ok (snd (buffer_send bad c b n k))"
proof -
  have pok: "pool_ok (es1 k)" and len: "length (cport_out_urb (es1 k)) = NUM_CPORT_OUT_URB"
    using ok by (simp_all add: kernel_ok_def pool_ok_def)
  show ?thesis
  proof (cases rule: buffer_send_cases [where bad = bad and c = c and b = b and n = n and k = k])
    case (rejected msg)
    show ?thesis
      using ok by (rule kernel_ok_busy) (simp_all add: rejected)
  next
    case (pooled j)
    show ?thesis
      using ok
      by (rule kernel_ok_busy)
         (simp_all add: buffer_send_pooled [OF pooled(1-4) pok pooled(5)])
  next
    case dynamic
    show ?thesis
      using ok
      by (rule kernel_ok_busy)
         (simp_all add: tl_subset
            buffer_send_dynamic [OF dynamic(1-4) len dynamic(5) kernel_ok_fresh [OF ok]])
  qed
qed

lemma kernel_ok_cport_out_callback:
  assumes "kernel_ok k"
  shows "kernel_ok (cport_out_callback u k)"
proof -
  have "kernel_ok (emit (Greybus_data_sent (transfer_buffer (urbs k u) + 1)
                     (fst (check_urb_status u k))) (snd (check_urb_status u k)))"
    using assms by (rule kernel_ok_busy) simp_all
  then show ?thesis
    by (simp add: cport_out_callback_def split_beta Let_def kernel_ok_free_urb)
qed

lemma demo_attach_well_formed:
  "kernel_ok (snd (ap_probe True 0 0x10010 4096 demo_endpoints demo_boot))"
  "pool_idle (es1 (snd (ap_probe True 0 0x10010 4096 demo_endpoints demo_boot)))"
proof -
  let ?k = "snd (ap_probe True 0 0x10010 4096 demo_endpoints demo_boot)"
  have "pool_ok (es1 ?k)"
    using demo_dev_pool_ok by (simp add: demo_attach(2) pool_ok_def)
  then show "kernel_ok ?k"
    by (simp add: kernel_ok_def demo_attach(3)) (simp add: demo_attach(2) demo_dev_def aligned_ptr_def)
  show "pool_idle (es1 ?k)"
    by (simp add: demo_attach(2) pool_idle_def demo_dev_def NUM_CPORT_OUT_URB_def numeral_eq_Suc)
qed

end
